theory Spec2Isabelle
  imports Complex_Main "HOL-Library.AList"
begin

section \<open>Backoff sequences (lib/twitter.js, lines 8-17 and 58-65)\<close>

text \<open>
  \<^verbatim>\<open>backoff(current, max, step)\<close> returns a closure over the three arguments. The closure
  is modelled by the record of its captured variables; calling it is \<open>backoff_call\<close>,
  which returns either the thrown error or the returned value with the closure's new
  variables. The delays are JavaScript numbers; every value a sequence below can hold is
  an integer smaller than \<open>2^53\<close>, where addition and doubling are exact, so they are
  integers here.
\<close>

datatype error =
  Exceeded_rate_limit \<comment> \<open>\<^verbatim>\<open>new Error('Exceeded twitter rate limit')\<close>\<close>
  | TypeError \<comment> \<open>reading a property of \<^verbatim>\<open>null\<close> or \<^verbatim>\<open>undefined\<close>\<close>
  | Oauth_credentials_required \<comment> \<open>\<^verbatim>\<open>new Error('Oauth credentials required')\<close>\<close>
  | Unhandled_error_event \<comment> \<open>\<^verbatim>\<open>emit('error', ...)\<close> with no listener\<close>

record backoff_state =
  current :: int
  max_b :: int
  step :: "int \<Rightarrow> int"

definition backoff :: "int \<Rightarrow> int \<Rightarrow> (int \<Rightarrow> int) \<Rightarrow> backoff_state" where
  "backoff c m f = \<lparr>current = c, max_b = m, step = f\<rparr>"

definition backoff_call :: "backoff_state \<Rightarrow> error + (int \<times> backoff_state)" where
  "backoff_call b =
     (let value = current b in
      if value > max_b b then Inl Exceeded_rate_limit
      else Inr (value, b\<lparr>current := step b (current b)\<rparr>))"

definition networkBackoff_init :: backoff_state where
  "networkBackoff_init = backoff 0 (16 * 1000) (\<lambda>x. x + 250)"

definition httpBackoff_init :: backoff_state where
  "httpBackoff_init = backoff 1000 (320 * 1000) (\<lambda>x. x * 2)"

definition rateBackoff_init :: backoff_state where
  "rateBackoff_init = backoff 1000 2147483647 (\<lambda>x. x * 2)"

text \<open>
  The values returned by up to \<open>n\<close> successive calls of one closure, up to the first
  call that throws (a call that throws leaves \<open>current\<close> as it is, so every later call
  throws as well).
\<close>

fun backoff_calls :: "nat \<Rightarrow> backoff_state \<Rightarrow> int list" where
  "backoff_calls 0 b = []"
| "backoff_calls (Suc n) b =
     (case backoff_call b of
        Inl e \<Rightarrow> []
      | Inr (v, b') \<Rightarrow> v # backoff_calls n b')"

section \<open>Jitter (lines 280-281 and 349-352)\<close>

text \<open>
  Both handlers compute
  \<^verbatim>\<open>random = backoff * Math.random() * 0.5 - backoff * 0.25; backoff = backoff + random\<close>.
  The draw of \<^verbatim>\<open>Math.random()\<close> is the argument \<open>u\<close>; the arithmetic is over the reals.
\<close>

definition jitter :: "real \<Rightarrow> real \<Rightarrow> real" where
  "jitter backoff_v u =
     (let random = backoff_v * u * 0.5 - backoff_v * 0.25 in backoff_v + random)"

section \<open>Filter objects (lines 34-39, 67-88, 110-124, 156-182)\<close>

text \<open>
  Each of the four filter kinds is an object literal \<^verbatim>\<open>{}\<close> used as a dictionary from
  keyword to count. The model keeps what the code can observe of such an object:
  \<^item> its own properties, in creation order (keywords are property keys, that is strings,
    after JavaScript's conversion of the argument);
  \<^item> the properties every object literal inherits from \<^verbatim>\<open>Object.prototype\<close>: the code reads
    \<^verbatim>\<open>this._filters[filter][keyword]\<close> without an own-property test, so a keyword that
    names one of them reads as a function (or, for \<^verbatim>\<open>__proto__\<close>, as an object);
  \<^item> the order of \<^verbatim>\<open>Object.keys\<close>: keys that are array indices first, in ascending numeric
    order, then the other keys in creation order.
  A count is a JavaScript number: an integer (exact below \<open>2^53\<close>) or \<^verbatim>\<open>NaN\<close>, which is
  what \<^verbatim>\<open>++\<close> and \<^verbatim>\<open>--\<close> produce from a function.
\<close>

datatype jsvalue =
  Undefined
  | Number int
  | NaN
  | Inherited_function
  | Inherited_object

type_synonym jsobject = "(string \<times> jsvalue) list"

definition object_prototype_functions :: "string list" where
  "object_prototype_functions =
     [''constructor'', ''hasOwnProperty'', ''isPrototypeOf'', ''propertyIsEnumerable'',
      ''toLocaleString'', ''toString'', ''valueOf'', ''__defineGetter__'',
      ''__defineSetter__'', ''__lookupGetter__'', ''__lookupSetter__'']"

definition get_property :: "jsobject \<Rightarrow> string \<Rightarrow> jsvalue" where
  "get_property obj key =
     (case map_of obj key of
        Some v \<Rightarrow> v
      | None \<Rightarrow>
          if key = ''__proto__'' then Inherited_object
          else if key \<in> set object_prototype_functions then Inherited_function
          else Undefined)"

text \<open>
  An assignment creates or overwrites an own property, except for \<^verbatim>\<open>__proto__\<close>, whose
  inherited setter ignores a value that is neither an object nor \<^verbatim>\<open>null\<close>.
\<close>

definition set_property :: "jsobject \<Rightarrow> string \<Rightarrow> jsvalue \<Rightarrow> jsobject" where
  "set_property obj key v = (if key = ''__proto__'' then obj else AList.update key v obj)"

definition delete_property :: "jsobject \<Rightarrow> string \<Rightarrow> jsobject" where
  "delete_property obj key = AList.delete key obj"

fun truthy :: "jsvalue \<Rightarrow> bool" where
  "truthy Undefined = False"
| "truthy (Number n) = (n \<noteq> 0)"
| "truthy NaN = False"
| "truthy Inherited_function = True"
| "truthy Inherited_object = True"

text \<open>\<^verbatim>\<open>x++\<close> stores \<open>ToNumber(x) + 1\<close> and \<^verbatim>\<open>--x\<close> stores and returns \<open>ToNumber(x) - 1\<close>.\<close>

fun increment :: "jsvalue \<Rightarrow> jsvalue" where
  "increment (Number n) = Number (n + 1)"
| "increment v = NaN"

fun decrement :: "jsvalue \<Rightarrow> jsvalue" where
  "decrement (Number n) = Number (n - 1)"
| "decrement v = NaN"

definition digit_value :: "char \<Rightarrow> int option" where
  "digit_value c =
     map_of [(CHR ''0'', 0), (CHR ''1'', 1), (CHR ''2'', 2), (CHR ''3'', 3), (CHR ''4'', 4),
             (CHR ''5'', 5), (CHR ''6'', 6), (CHR ''7'', 7), (CHR ''8'', 8), (CHR ''9'', 9)] c"

fun decimal :: "int \<Rightarrow> string \<Rightarrow> int option" where
  "decimal acc [] = Some acc"
| "decimal acc (c # cs) =
     (case digit_value c of
        None \<Rightarrow> None
      | Some d \<Rightarrow> decimal (10 * acc + d) cs)"

text \<open>
  A key is an array index when it is the canonical decimal numeral of an integer below
  \<open>2^32 - 1\<close>.
\<close>

definition array_index :: "string \<Rightarrow> int option" where
  "array_index key =
     (if key = [] \<or> (hd key = CHR ''0'' \<and> key \<noteq> ''0'') then None
      else case decimal 0 key of
             None \<Rightarrow> None
           | Some n \<Rightarrow> if n < 4294967295 then Some n else None)"

definition index_of :: "string \<Rightarrow> int" where
  "index_of key = (case array_index key of None \<Rightarrow> 0 | Some n \<Rightarrow> n)"

definition Object_keys :: "jsobject \<Rightarrow> string list" where
  "Object_keys obj =
     (let ks = map fst obj in
      sort_key index_of (filter (\<lambda>k. array_index k \<noteq> None) ks)
        @ filter (\<lambda>k. array_index k = None) ks)"

text \<open>\<^verbatim>\<open>Array.prototype.join\<close> on an array of strings.\<close>

fun join :: "string \<Rightarrow> string list \<Rightarrow> string" where
  "join sep [] = []"
| "join sep [x] = x"
| "join sep (x # y # ys) = x @ sep @ join sep (y # ys)"

datatype filter_type =
  FILTER_TYPE_TRACKING
  | FILTER_TYPE_LOCATION
  | FILTER_TYPE_FOLLOW
  | FILTER_TYPE_LANGUAGE

section \<open>Decoded records and events (lines 135-154, 208-241)\<close>

text \<open>
  A decoded record is what \<^verbatim>\<open>JSON.parse\<close> returned. \<open>JUndefined\<close> is not a decoded value: it
  is what reading a missing property gives.
\<close>

datatype json =
  JUndefined
  | JNull
  | JBool bool
  | JNumber real
  | JString string
  | JArray "json list"
  | JObject "(string \<times> json) list"

fun truthy_json :: "json \<Rightarrow> bool" where
  "truthy_json JUndefined = False"
| "truthy_json JNull = False"
| "truthy_json (JBool b) = b"
| "truthy_json (JNumber x) = (x \<noteq> 0)"
| "truthy_json (JString s) = (s \<noteq> [])"
| "truthy_json (JArray xs) = True"
| "truthy_json (JObject fs) = True"

text \<open>
  \<^verbatim>\<open>data.name\<close> for the eight names \<^verbatim>\<open>_write\<close> reads, none of which a string, number, boolean,
  array or object inherits: an object gives its own property (the last one, when the
  text repeated a key), every other value but \<^verbatim>\<open>null\<close> and \<^verbatim>\<open>undefined\<close> gives
  \<^verbatim>\<open>undefined\<close>. Reading a property of \<^verbatim>\<open>null\<close> or \<^verbatim>\<open>undefined\<close> throws, which \<open>write_record\<close>
  tests before it reads.
\<close>

fun field :: "json \<Rightarrow> string \<Rightarrow> json" where
  "field (JObject fs) name = (case map_of (rev fs) name of None \<Rightarrow> JUndefined | Some v \<Rightarrow> v)"
| "field v name = JUndefined"

record explanation =
  etype :: string
  long :: string

definition errorExplanation :: "int \<Rightarrow> explanation option" where
  "errorExplanation =
     map_of
       [(401, \<lparr>etype = ''unauthorized'', long = ''HTTP authentication failed.''\<rparr>),
        (403, \<lparr>etype = ''forbidden'',
               long = ''The connecting account is not permitted to access this endpoint.''\<rparr>),
        (404, \<lparr>etype = ''not-found'', long = ''There is nothing at this URL.''\<rparr>),
        (406, \<lparr>etype = ''not-acceptable'',
               long = ''At least one request parameter is invalid.''\<rparr>),
        (413, \<lparr>etype = ''too-long'', long = ''A parameter list is too long.''\<rparr>),
        (416, \<lparr>etype = ''range-unacceptable'',
               long = ''Returned if user does not have access to use the count parameter or a count parameter is outside of the max/min allowable values.''\<rparr>),
        (420, \<lparr>etype = ''rate-limit'', long = ''The client has connected too frequently.''\<rparr>),
        (503, \<lparr>etype = ''service-unavailable'',
               long = ''A streaming server is temporarily overloaded.''\<rparr>)]"

text \<open>
  What \<^verbatim>\<open>this.emit\<close> was called with: an event of a decoded record (name and payload), the
  connect event, a reconnect event (the \<^verbatim>\<open>type\<close> and \<^verbatim>\<open>explain\<close> of its second argument and
  the delay), an error event (status code and explanation). The listeners of the host
  are not modelled; the model records the events.
\<close>

datatype event =
  Record_event string json
  | Connect_event
  | Reconnect_event string "explanation option" real
  | Error_event int "explanation option"

section \<open>The client (lines 24-47, 126-133, 204-206, 243-379)\<close>

text \<open>
  The fields of the client are those the code assigns: \<^verbatim>\<open>_filters\<close>, \<^verbatim>\<open>stale\<close> (\<open>None\<close> while
  it is \<^verbatim>\<open>undefined\<close>), \<^verbatim>\<open>stream\<close> (\<open>None\<close> for \<^verbatim>\<open>undefined\<close> and \<^verbatim>\<open>null\<close>, else the number of
  the request it holds), \<^verbatim>\<open>parser\<close> (whether it is set), \<^verbatim>\<open>timeout\<close> (a timer handle),
  \<^verbatim>\<open>connectBackoff\<close>, \<^verbatim>\<open>inConnectBackoff\<close> and the three backoff closures. The rest records
  what the code did to its environment: the timers that are pending, with their
  callbacks and delays, the number of timers created so far (the next handle), the
  callbacks queued by \<^verbatim>\<open>process.nextTick\<close>, the form bodies of the requests issued, the
  requests on which \<^verbatim>\<open>abort()\<close> was called, the number of calls of \<^verbatim>\<open>parser.destroy()\<close>,
  the events emitted, and the number of listeners of the \<^verbatim>\<open>error\<close> event that \<^verbatim>\<open>connect\<close> has
  registered with \<^verbatim>\<open>once\<close> and that have not run yet.
\<close>

datatype timer =
  Response_reconnect \<comment> \<open>the callback of lines 286-289\<close>
  | Network_reconnect \<comment> \<open>the callback of lines 357-362\<close>
  | Stall_close \<comment> \<open>\<^verbatim>\<open>close\<close>, lines 329-333\<close>

datatype tick = Connect_tick

record form =
  form_track :: string
  form_locations :: string
  form_follow :: string
  form_language :: string

record twitter =
  filters :: "filter_type \<Rightarrow> jsobject"
  stale :: "bool option"
  stream :: "nat option"
  parser :: bool
  timeout :: "nat option"
  connectBackoff :: real
  inConnectBackoff :: "real option"
  networkBackoff :: backoff_state
  httpBackoff :: backoff_state
  rateBackoff :: backoff_state
  timers :: "(nat \<times> timer \<times> real) list"
  timer_count :: nat
  ticks :: "tick list"
  requests :: "form list"
  aborted :: "nat list"
  parser_destroyed :: nat
  emitted :: "event list"
  error_listeners :: nat

type_synonym outcome = "(error \<times> twitter) + twitter"

definition backoffs :: "twitter \<Rightarrow> twitter" where
  "backoffs s =
     s\<lparr>networkBackoff := backoff 0 (16 * 1000) (\<lambda>x. x + 250),
       httpBackoff := backoff 1000 (320 * 1000) (\<lambda>x. x * 2),
       rateBackoff := backoff 1000 2147483647 (\<lambda>x. x * 2)\<rparr>"

text \<open>
  The constructor throws unless the four credentials are given and truthy (a missing one
  is \<open>None\<close>, and an empty string is falsy); otherwise it returns \<open>new_client\<close>.
\<close>

record oauth =
  consumer_key :: "string option"
  consumer_secret :: "string option"
  token :: "string option"
  token_secret :: "string option"

definition truthy_string :: "string option \<Rightarrow> bool" where
  "truthy_string x = (case x of None \<Rightarrow> False | Some v \<Rightarrow> v \<noteq> [])"

definition new_client :: twitter where
  "new_client =
     \<lparr>filters = (\<lambda>f. []), stale = None, stream = None, parser = False, timeout = None,
      connectBackoff = 0, inConnectBackoff = None,
      networkBackoff = backoff 0 (16 * 1000) (\<lambda>x. x + 250),
      httpBackoff = backoff 1000 (320 * 1000) (\<lambda>x. x * 2),
      rateBackoff = backoff 1000 2147483647 (\<lambda>x. x * 2),
      timers = [], timer_count = 0, ticks = [], requests = [], aborted = [],
      parser_destroyed = 0, emitted = [], error_listeners = 0\<rparr>"

definition Twitter :: "oauth option \<Rightarrow> error + twitter" where
  "Twitter oa =
     (case oa of
        None \<Rightarrow> Inl Oauth_credentials_required
      | Some c \<Rightarrow>
          if \<not> truthy_string (consumer_secret c) \<or> \<not> truthy_string (consumer_key c)
             \<or> \<not> truthy_string (token c) \<or> \<not> truthy_string (token_secret c)
          then Inl Oauth_credentials_required
          else Inr new_client)"

definition timeoutInterval :: real where
  "timeoutInterval = 1000 * 90"

definition emit :: "event \<Rightarrow> twitter \<Rightarrow> twitter" where
  "emit e s = s\<lparr>emitted := emitted s @ [e]\<rparr>"

text \<open>
  \<^verbatim>\<open>this.emit('error', this, details)\<close>. The listeners of this event that the code itself
  registers are those of \<^verbatim>\<open>connect\<close> (lines 262-266). The first of them leaves the
  listeners and runs with the client as its argument \<^verbatim>\<open>err\<close>; the client has no property
  \<^verbatim>\<open>explain\<close>, so \<^verbatim>\<open>err.explain.long\<close> throws a \<^verbatim>\<open>TypeError\<close>, which leaves \<^verbatim>\<open>emit\<close> and the
  handler that called it. With none of these listeners left, \<^verbatim>\<open>emit\<close> is taken to throw
  as it does for an \<^verbatim>\<open>error\<close> event without a listener (every response follows a
  \<^verbatim>\<open>connect\<close> that registered one). Listeners the host registers are not modelled; one
  registered before \<^verbatim>\<open>connect\<close> would run first.
\<close>

definition emit_error :: "event \<Rightarrow> twitter \<Rightarrow> outcome" where
  "emit_error e s =
     (let s1 = emit e s in
      if error_listeners s1 = 0 then Inl (Unhandled_error_event, s1)
      else Inl (TypeError, s1\<lparr>error_listeners := error_listeners s1 - 1\<rparr>))"

definition setTimeout :: "timer \<Rightarrow> real \<Rightarrow> twitter \<Rightarrow> nat \<times> twitter" where
  "setTimeout callback delay s =
     (timer_count s,
      s\<lparr>timers := timers s @ [(timer_count s, callback, delay)],
        timer_count := timer_count s + 1\<rparr>)"

text \<open>
  \<^verbatim>\<open>clearTimeout\<close> takes the timer with the given handle out of the pending ones; it does
  nothing for \<^verbatim>\<open>undefined\<close> and for a timer that is no longer pending.
\<close>

definition remove_timer ::
  "nat option \<Rightarrow> (nat \<times> timer \<times> real) list \<Rightarrow> (nat \<times> timer \<times> real) list" where
  "remove_timer handle ts =
     (case handle of
        None \<Rightarrow> ts
      | Some h \<Rightarrow> filter (\<lambda>t. fst t \<noteq> h) ts)"

definition clearTimeout :: "nat option \<Rightarrow> twitter \<Rightarrow> twitter" where
  "clearTimeout handle s = s\<lparr>timers := remove_timer handle (timers s)\<rparr>"

definition tracking :: "twitter \<Rightarrow> string list" where
  "tracking s = Object_keys (filters s FILTER_TYPE_TRACKING)"

definition locations :: "twitter \<Rightarrow> string list" where
  "locations s = Object_keys (filters s FILTER_TYPE_LOCATION)"

definition following :: "twitter \<Rightarrow> string list" where
  "following s = Object_keys (filters s FILTER_TYPE_FOLLOW)"

definition languages :: "twitter \<Rightarrow> string list" where
  "languages s = Object_keys (filters s FILTER_TYPE_LANGUAGE)"

definition hasFilters :: "twitter \<Rightarrow> bool" where
  "hasFilters s \<longleftrightarrow>
     length (tracking s) > 0 \<or> length (locations s) > 0
     \<or> length (following s) > 0 \<or> length (languages s) > 0"

definition abort :: "twitter \<Rightarrow> twitter" where
  "abort s =
     (let s1 = (if parser s then s\<lparr>parser_destroyed := parser_destroyed s + 1\<rparr> else s);
          s2 = clearTimeout (timeout s1) s1;
          s3 = (case stream s2 of
                  None \<Rightarrow> s2
                | Some r \<Rightarrow> s2\<lparr>aborted := aborted s2 @ [r]\<rparr>)
      in s3\<lparr>stream := None\<rparr>)"

text \<open>
  \<^verbatim>\<open>connect\<close> up to the request and the registration of its \<^verbatim>\<open>once('error')\<close> listener (lines
  262-266); the handlers it attaches to the new stream are \<open>response_handler\<close> and
  \<open>error_handler\<close> below.
\<close>

definition connect :: "twitter \<Rightarrow> twitter" where
  "connect s =
     (let s1 = s\<lparr>stale := Some False\<rparr> in
      if \<not> hasFilters s1 then s1
      else s1\<lparr>stream := Some (length (requests s1)),
              requests := requests s1 @
                [\<lparr>form_track = join '','' (Object_keys (filters s1 FILTER_TYPE_TRACKING)),
                  form_locations = join '','' (Object_keys (filters s1 FILTER_TYPE_LOCATION)),
                  form_follow = join '','' (Object_keys (filters s1 FILTER_TYPE_FOLLOW)),
                  form_language = join '','' (Object_keys (filters s1 FILTER_TYPE_LANGUAGE))\<rparr>],
              error_listeners := error_listeners s1 + 1\<rparr>)"

definition reconnect :: "twitter \<Rightarrow> twitter" where
  "reconnect s =
     (if stale s = Some True
      then connect (if stream s \<noteq> None then abort s else s)
      else s)"

section \<open>Changing the filters (lines 67-108, 156-202)\<close>

text \<open>
  The \<^verbatim>\<open>reconnect\<close> argument is \<open>None\<close> when the caller left it out
  (\<^verbatim>\<open>typeof reconnect === 'undefined' || reconnect\<close>). The keywords are one keyword or an
  array of them.
\<close>

datatype keyword_arg = Single string | Multiple "string list"

definition reconnect_flag :: "bool option \<Rightarrow> bool" where
  "reconnect_flag r = (case r of None \<Rightarrow> True | Some b \<Rightarrow> b)"

definition keyword_list :: "keyword_arg \<Rightarrow> string list" where
  "keyword_list ks = (case ks of Single k \<Rightarrow> [k] | Multiple l \<Rightarrow> l)"

text \<open>
  The body of the \<^verbatim>\<open>forEach\<close> callback of \<^verbatim>\<open>addFilter\<close>, on the client and the local
  \<^verbatim>\<open>addedNewKeyword\<close>.
\<close>

definition addFilter_keyword :: "filter_type \<Rightarrow> string \<Rightarrow> twitter \<times> bool \<Rightarrow> twitter \<times> bool" where
  "addFilter_keyword f keyword st =
     (let s = fst st; addedNewKeyword = snd st; obj = filters s f in
      if truthy (get_property obj keyword)
      then (s\<lparr>filters := (filters s)(f := set_property obj keyword
                  (increment (get_property obj keyword)))\<rparr>,
            addedNewKeyword)
      else (s\<lparr>filters := (filters s)(f := set_property obj keyword (Number 1)),
              stale := Some True\<rparr>,
            True))"

definition addFilter :: "filter_type \<Rightarrow> keyword_arg \<Rightarrow> bool option \<Rightarrow> twitter \<Rightarrow> twitter" where
  "addFilter f ks r s =
     (let st = fold (addFilter_keyword f) (keyword_list ks) (s, False) in
      if reconnect_flag r \<and> snd st then reconnect (fst st) else fst st)"

definition track :: "string \<Rightarrow> bool option \<Rightarrow> twitter \<Rightarrow> twitter" where
  "track keyword r s = addFilter FILTER_TYPE_TRACKING (Single keyword) r s"

definition trackMultiple :: "string list \<Rightarrow> bool option \<Rightarrow> twitter \<Rightarrow> twitter" where
  "trackMultiple ks r s = addFilter FILTER_TYPE_TRACKING (Multiple ks) r s"

definition location :: "keyword_arg \<Rightarrow> bool option \<Rightarrow> twitter \<Rightarrow> twitter" where
  "location l r s = addFilter FILTER_TYPE_LOCATION l r s"

definition follow :: "keyword_arg \<Rightarrow> bool option \<Rightarrow> twitter \<Rightarrow> twitter" where
  "follow k r s = addFilter FILTER_TYPE_FOLLOW k r s"

definition language :: "keyword_arg \<Rightarrow> bool option \<Rightarrow> twitter \<Rightarrow> twitter" where
  "language l r s = addFilter FILTER_TYPE_LANGUAGE l r s"

definition removeFilter :: "filter_type \<Rightarrow> string \<Rightarrow> bool option \<Rightarrow> twitter \<Rightarrow> twitter" where
  "removeFilter f keyword r s =
     (let obj = filters s f in
      if get_property obj keyword = Undefined then s
      else
        let v = decrement (get_property obj keyword);
            s1 = s\<lparr>filters := (filters s)(f := set_property obj keyword v)\<rparr>
        in if v = Number 0
           then
             let s2 = s1\<lparr>filters := (filters s1)(f := delete_property (filters s1 f) keyword),
                        stale := Some True\<rparr>
             in if reconnect_flag r then reconnect s2 else s2
           else s1)"

definition removeAllFilters :: "filter_type \<Rightarrow> bool option \<Rightarrow> twitter \<Rightarrow> twitter" where
  "removeAllFilters f r s =
     (let s1 = s\<lparr>filters := (filters s)(f := []), stale := Some True\<rparr>
      in if reconnect_flag r then reconnect s1 else s1)"

definition untrack :: "string \<Rightarrow> bool option \<Rightarrow> twitter \<Rightarrow> twitter" where
  "untrack keyword r s = removeFilter FILTER_TYPE_TRACKING keyword r s"

definition untrackAll :: "bool option \<Rightarrow> twitter \<Rightarrow> twitter" where
  "untrackAll r s = removeAllFilters FILTER_TYPE_TRACKING r s"

definition unlocate :: "string \<Rightarrow> bool option \<Rightarrow> twitter \<Rightarrow> twitter" where
  "unlocate l r s = removeFilter FILTER_TYPE_LOCATION l r s"

definition unfollow :: "string \<Rightarrow> bool option \<Rightarrow> twitter \<Rightarrow> twitter" where
  "unfollow k r s = removeFilter FILTER_TYPE_FOLLOW k r s"

definition unlanguage :: "string \<Rightarrow> bool option \<Rightarrow> twitter \<Rightarrow> twitter" where
  "unlanguage l r s = removeFilter FILTER_TYPE_LANGUAGE l r s"

section \<open>Classifying a decoded record (lines 135-154)\<close>

definition write_record :: "json \<Rightarrow> twitter \<Rightarrow> outcome" where
  "write_record data s =
     (if data = JNull \<or> data = JUndefined then Inl (TypeError, s)
      else Inr
        (if truthy_json (field data ''text'') then emit (Record_event ''tweet'' data) s
         else if truthy_json (field data ''delete'')
           then emit (Record_event ''delete'' (field data ''delete'')) s
         else if truthy_json (field data ''scrub_geo'')
           then emit (Record_event ''scrub_geo'' (field data ''scrub_geo'')) s
         else if truthy_json (field data ''limit'')
           then emit (Record_event ''limit'' (field data ''limit'')) s
         else if truthy_json (field data ''status_withheld'')
           then emit (Record_event ''status_withheld'' (field data ''status_withheld'')) s
         else if truthy_json (field data ''user_withheld'')
           then emit (Record_event ''user_withheld'' (field data ''user_withheld'')) s
         else if truthy_json (field data ''disconnect'')
           then emit (Record_event ''disconnect'' (field data ''disconnect'')) s
         else if truthy_json (field data ''warning'')
           then emit (Record_event ''warning'' (field data ''warning'')) s
         else s))"

section \<open>The handlers of a connection (lines 268-366)\<close>

text \<open>
  The handler of the stream's \<^verbatim>\<open>response\<close> event, for a response with the given status
  code; \<open>u\<close> is what \<^verbatim>\<open>Math.random()\<close> returns if the handler calls it. An exception leaves
  the handler with the client as it was when it was thrown.
\<close>

definition response_handler :: "int \<Rightarrow> real \<Rightarrow> twitter \<Rightarrow> outcome" where
  "response_handler statusCode u s =
     (if statusCode = 420 \<or> statusCode = 503 then
        (case (if statusCode = 420 then backoff_call (rateBackoff s)
               else backoff_call (httpBackoff s)) of
           Inl e \<Rightarrow> Inl (e, s)
         | Inr (b, closure) \<Rightarrow>
             let s1 = (if statusCode = 420 then s\<lparr>rateBackoff := closure\<rparr>
                       else s\<lparr>httpBackoff := closure\<rparr>);
                 s2 = abort s1;
                 backoff_v = jitter (real_of_int b) u;
                 s3 = (if connectBackoff s2 = 0
                       then snd (setTimeout Response_reconnect backoff_v
                                   (s2\<lparr>connectBackoff := backoff_v\<rparr>))
                       else s2)
             in (case errorExplanation statusCode of
                   None \<Rightarrow> Inl (TypeError, s3)
                 | Some ex \<Rightarrow>
                     Inr (emit (Reconnect_event (etype ex) (Some ex) (connectBackoff s3)) s3)))
      else if statusCode > 200 then
        emit_error (Error_event statusCode (errorExplanation statusCode)) (abort s)
      else
        (let s1 = backoffs s;
             s2 = emit Connect_event s1;
             s3 = s2\<lparr>parser := True\<rparr>;
             t = setTimeout Stall_close timeoutInterval s3
         in Inr ((snd t)\<lparr>timeout := Some (fst t)\<rparr>)))"

text \<open>The listener of the response's \<^verbatim>\<open>data\<close> event (lines 337-340).\<close>

definition data_handler :: "twitter \<Rightarrow> twitter" where
  "data_handler s =
     (let s1 = clearTimeout (timeout s) s;
          t = setTimeout Stall_close timeoutInterval s1
      in (snd t)\<lparr>timeout := Some (fst t)\<rparr>)"

text \<open>The handler of the stream's \<^verbatim>\<open>error\<close> event (lines 343-366).\<close>

definition error_handler :: "real \<Rightarrow> twitter \<Rightarrow> outcome" where
  "error_handler u s =
     (let s1 = abort s in
      case backoff_call (networkBackoff s1) of
        Inl e \<Rightarrow> Inl (e, s1)
      | Inr (b, closure) \<Rightarrow>
          let s2 = s1\<lparr>networkBackoff := closure\<rparr>;
              backoff_v = jitter (real_of_int b) u;
              s3 = (if connectBackoff s2 = 0
                    then snd (setTimeout Network_reconnect backoff_v
                                (s2\<lparr>connectBackoff := backoff_v\<rparr>))
                    else s2)
          in Inr (emit (Reconnect_event ''network'' None (connectBackoff s3)) s3))"

text \<open>
  \<^verbatim>\<open>close\<close> (lines 329-333) queues \<^verbatim>\<open>connect\<close> with \<^verbatim>\<open>process.nextTick\<close>; the queue runs as soon
  as the running callback has returned, before any other event.
\<close>

definition close :: "twitter \<Rightarrow> twitter" where
  "close s =
     (let s1 = abort s;
          s2 = s1\<lparr>ticks := ticks s1 @ [Connect_tick]\<rparr>
      in emit (Reconnect_event ''stall'' None 0) s2)"

fun run_ticks :: "tick list \<Rightarrow> twitter \<Rightarrow> twitter" where
  "run_ticks [] s = s"
| "run_ticks (Connect_tick # ts) s = run_ticks ts (connect s)"

definition next_tick :: "twitter \<Rightarrow> twitter" where
  "next_tick s = run_ticks (ticks s) (s\<lparr>ticks := []\<rparr>)"

definition timer_callback :: "timer \<Rightarrow> twitter \<Rightarrow> twitter" where
  "timer_callback t s =
     (case t of
        Response_reconnect \<Rightarrow> connect (s\<lparr>connectBackoff := 0\<rparr>)
      | Network_reconnect \<Rightarrow> connect (s\<lparr>inConnectBackoff := Some 0\<rparr>)
      | Stall_close \<Rightarrow> close s)"

text \<open>
  The pending timer with handle \<open>h\<close> fires: it leaves the pending timers, its callback
  runs, and then the callbacks queued by \<^verbatim>\<open>process.nextTick\<close> run.
\<close>

definition timer_fires :: "nat \<Rightarrow> twitter \<Rightarrow> twitter" where
  "timer_fires h s =
     (case find (\<lambda>t. fst t = h) (timers s) of
        None \<Rightarrow> s
      | Some t \<Rightarrow>
          next_tick (timer_callback (fst (snd t))
                       (s\<lparr>timers := remove_timer (Some h) (timers s)\<rparr>)))"

section \<open>Sequences of calls and the specification's reading of them\<close>

text \<open>A sequence of add and remove calls on one filter kind, applied in order.\<close>

datatype filter_call = Add keyword_arg "bool option" | Remove string "bool option"

fun apply_call :: "filter_type \<Rightarrow> filter_call \<Rightarrow> twitter \<Rightarrow> twitter" where
  "apply_call f (Add ks r) s = addFilter f ks r s"
| "apply_call f (Remove k r) s = removeFilter f k r s"

definition apply_calls :: "filter_type \<Rightarrow> filter_call list \<Rightarrow> twitter \<Rightarrow> twitter" where
  "apply_calls f calls s = fold (apply_call f) calls s"

text \<open>
  The net count of a keyword after such a sequence, in the specification's words: an add
  increments the count of each keyword it is given, a remove decrements the count of its
  keyword, and removing a keyword whose count is zero is a no-op.
\<close>

fun count_call :: "filter_call \<Rightarrow> (string \<Rightarrow> nat) \<Rightarrow> (string \<Rightarrow> nat)" where
  "count_call (Add ks r) c = fold (\<lambda>k c'. c'(k := c' k + 1)) (keyword_list ks) c"
| "count_call (Remove k r) c = (if c k = 0 then c else c(k := c k - 1))"

definition net_count :: "filter_call list \<Rightarrow> string \<Rightarrow> nat" where
  "net_count calls = fold count_call calls (\<lambda>k. 0)"

text \<open>
  The classification of a record in the specification's words: the first of the eight
  fields, in the priority order, that the record has.
\<close>

definition record_fields :: "string list" where
  "record_fields =
     [''text'', ''delete'', ''scrub_geo'', ''limit'', ''status_withheld'', ''user_withheld'',
      ''disconnect'', ''warning'']"

definition first_present :: "json \<Rightarrow> string option" where
  "first_present data = find (\<lambda>name. field data name \<noteq> JUndefined) record_fields"

text \<open>The first of the eight fields whose value is truthy, which is what the code tests.\<close>

definition first_truthy :: "json \<Rightarrow> string option" where
  "first_truthy data = find (\<lambda>name. truthy_json (field data name)) record_fields"

definition record_event :: "json \<Rightarrow> string \<Rightarrow> event" where
  "record_event data name =
     (if name = ''text'' then Record_event ''tweet'' data
      else Record_event name (field data name))"

text \<open>
  The keywords a call names, the keys every filter object inherits, and what it means
  for a keyword to be stored with a positive count.
\<close>

fun call_keywords :: "filter_call \<Rightarrow> string list" where
  "call_keywords (Add ks r) = keyword_list ks"
| "call_keywords (Remove k r) = [k]"

definition inherited :: "string \<Rightarrow> bool" where
  "inherited key \<longleftrightarrow> key = ''__proto__'' \<or> key \<in> set object_prototype_functions"

definition counted :: "jsobject \<Rightarrow> string \<Rightarrow> bool" where
  "counted obj key \<longleftrightarrow> (case map_of obj key of Some (Number n) \<Rightarrow> 0 < n | _ \<Rightarrow> False)"

text \<open>A filter object that stores exactly the keywords of positive count, with their counts.\<close>

definition counts_agree :: "jsobject \<Rightarrow> (string \<Rightarrow> nat) \<Rightarrow> bool" where
  "counts_agree obj c \<longleftrightarrow>
     (\<forall>k. map_of obj k = (if c k = 0 then None else Some (Number (int (c k)))))"

text \<open>The client after the \<^verbatim>\<open>forEach\<close> loop of \<^verbatim>\<open>addFilter\<close>, before the test for reconnecting.\<close>

definition processed :: "filter_type \<Rightarrow> keyword_arg \<Rightarrow> twitter \<Rightarrow> twitter" where
  "processed f ks s = fst (fold (addFilter_keyword f) (keyword_list ks) (s, False))"

section \<open>Example clients\<close>

text \<open>The client an outcome carries, whether the handler returned or threw.\<close>

definition the_client :: "outcome \<Rightarrow> twitter" where
  "the_client r = (case r of Inl (e, s) \<Rightarrow> s | Inr s \<Rightarrow> s)"

text \<open>A new client after \<^verbatim>\<open>track('a')\<close>, and the same after a response with status 200.\<close>

definition tracking_client :: twitter where
  "tracking_client = track ''a'' None new_client"

definition streaming_client :: twitter where
  "streaming_client = the_client (response_handler 200 0 tracking_client)"

text \<open>
  Three network failures in a row on \<open>tracking_client\<close>, each with the draw \<open>1/2\<close>, the
  reconnect timer of each failure firing before the next failure.
\<close>

definition first_failure :: twitter where
  "first_failure = the_client (error_handler (1 / 2) tracking_client)"

definition first_retry :: twitter where
  "first_retry = timer_fires 0 first_failure"

definition second_failure :: twitter where
  "second_failure = the_client (error_handler (1 / 2) first_retry)"

definition second_retry :: twitter where
  "second_retry = timer_fires 1 second_failure"

definition third_failure :: twitter where
  "third_failure = the_client (error_handler (1 / 2) second_retry)"

section \<open>Reachable clients\<close>

text \<open>
  The clients that the constructor and any sequence of calls of the public methods and
  runs of the handlers and timer callbacks lead to; a handler that throws leaves the
  client as it was when the exception was thrown.
\<close>

inductive reachable :: "twitter \<Rightarrow> bool" where
  constructed: "reachable new_client"
| adds: "reachable s \<Longrightarrow> reachable (addFilter f ks r s)"
| removes: "reachable s \<Longrightarrow> reachable (removeFilter f k r s)"
| removes_all: "reachable s \<Longrightarrow> reachable (removeAllFilters f r s)"
| reconnects: "reachable s \<Longrightarrow> reachable (reconnect s)"
| connects: "reachable s \<Longrightarrow> reachable (connect s)"
| aborts: "reachable s \<Longrightarrow> reachable (abort s)"
| writes: "reachable s \<Longrightarrow> reachable (the_client (write_record d s))"
| responds: "reachable s \<Longrightarrow> reachable (the_client (response_handler status u s))"
| fails: "reachable s \<Longrightarrow> reachable (the_client (error_handler u s))"
| receives: "reachable s \<Longrightarrow> reachable (data_handler s)"
| fires: "reachable s \<Longrightarrow> reachable (timer_fires h s)"


text \<open>
  What every reachable client satisfies: the rate backoff is the doubling sequence with
  ceiling 2147483647 at a positive value, and the handle in \<^verbatim>\<open>timeout\<close> is one of a timer
  that has been created.
\<close>

definition consistent :: "twitter \<Rightarrow> bool" where
  "consistent s \<longleftrightarrow>
     0 < current (rateBackoff s)
     \<and> max_b (rateBackoff s) = 2147483647
     \<and> step (rateBackoff s) = (\<lambda>x. x * 2)
     \<and> (case timeout s of None \<Rightarrow> True | Some h \<Rightarrow> h < timer_count s)"


text \<open>
  Rounds of a response with status 420 (draw \<open>1/2\<close>) followed by the firing of the
  reconnect timer it scheduled. After 21 rounds on \<open>tracking_client\<close> the rate backoff
  is at its last value below the ceiling; \<open>exhausting_first\<close> is that client after one
  more response with status 420. \<open>stuck_first\<close> and \<open>stuck_second\<close> are the client
  \<open>second_retry\<close> after one and two responses with status 420, with a \<^verbatim>\<open>connect()\<close> between
  them.
\<close>

fun rate_limit_rounds :: "nat \<Rightarrow> twitter \<Rightarrow> twitter" where
  "rate_limit_rounds 0 s = s"
| "rate_limit_rounds (Suc n) s =
     rate_limit_rounds n
       (timer_fires (timer_count s) (the_client (response_handler 420 (1 / 2) s)))"

definition exhausting_client :: twitter where
  "exhausting_client = rate_limit_rounds 21 tracking_client"

definition exhausting_first :: twitter where
  "exhausting_first = the_client (response_handler 420 (1 / 2) exhausting_client)"

definition stuck_first :: twitter where
  "stuck_first = the_client (response_handler 420 (1 / 2) second_retry)"

definition stuck_second :: twitter where
  "stuck_second = the_client (response_handler 420 (1 / 2) (connect stuck_first))"

section \<open>Properties of the backoff sequences\<close>

lemma backoff_call_cases:
  "backoff_call b =
     (if current b \<le> max_b b
      then Inr (current b, b\<lparr>current := step b (current b)\<rparr>)
      else Inl Exceeded_rate_limit)"
  by (simp add: backoff_call_def Let_def)

lemma backoff_calls_sorted_bounded:
  assumes mono: "\<And>x. lo \<le> x \<Longrightarrow> x \<le> step b x"
    and start: "lo \<le> current b"
  shows "sorted (backoff_calls n b) \<and> (\<forall>v \<in> set (backoff_calls n b). current b \<le> v \<and> v \<le> max_b b)"
  using assms
proof (induction n arbitrary: b)
  case 0
  show ?case by simp
next
  case (Suc n)
  show ?case
  proof (cases "current b \<le> max_b b")
    case False
    then show ?thesis by (simp add: backoff_call_cases)
  next
    case True
    let ?b' = "b\<lparr>current := step b (current b)\<rparr>"
    have up: "current b \<le> step b (current b)"
      using Suc.prems by blast
    have m': "\<And>x. lo \<le> x \<Longrightarrow> x \<le> step ?b' x"
      using Suc.prems(1) by simp
    have s': "lo \<le> current ?b'"
      using up Suc.prems(2) by simp
    have ih: "sorted (backoff_calls n ?b') \<and>
        (\<forall>v \<in> set (backoff_calls n ?b'). current ?b' \<le> v \<and> v \<le> max_b ?b')"
      using Suc.IH [of ?b', OF m' s'] by blast
    have eq: "backoff_calls (Suc n) b = current b # backoff_calls n ?b'"
      using True by (simp add: backoff_call_cases)
    show ?thesis
      unfolding eq using ih up True by auto
  qed
qed

text \<open>
  Each sequence ends: the network sequence returns 65 values, the last one 16000, the
  http sequence 9 values, the last one 256000, and the rate sequence 22 values, the last
  one 2097152000; every later call throws.
\<close>

lemma backoff_sequences_end:
  "length (backoff_calls 100 networkBackoff_init) = 65"
  "length (backoff_calls 100 httpBackoff_init) = 9"
  "length (backoff_calls 100 rateBackoff_init) = 22"
  by code_simp+

lemma backoff_sequences_last:
  "last (backoff_calls 100 networkBackoff_init) = 16000"
  "last (backoff_calls 100 httpBackoff_init) = 256000"
  "last (backoff_calls 100 rateBackoff_init) = 2097152000"
  by code_simp+

text \<open>
  C4. A call of a backoff closure returns the current value and advances it by the step
  function when the current value is at most the ceiling, and throws, returning nothing
  and changing nothing, exactly when the current value exceeds the ceiling. For the
  three sequences the client creates, the values returned by any number of successive
  calls are in non-decreasing order and none exceeds the ceiling of its sequence.
\<close>

theorem backoff_next_contract:
  "(backoff_call b =
      (if current b > max_b b then Inl Exceeded_rate_limit
       else Inr (current b, b\<lparr>current := step b (current b)\<rparr>)))
   \<and> ((\<exists>v b'. backoff_call b = Inr (v, b')) \<longleftrightarrow> current b \<le> max_b b)
   \<and> (backoff_call b = Inl Exceeded_rate_limit \<longleftrightarrow> current b > max_b b)
   \<and> sorted (backoff_calls n networkBackoff_init)
   \<and> (\<forall>v \<in> set (backoff_calls n networkBackoff_init). v \<le> 16000)
   \<and> sorted (backoff_calls n httpBackoff_init)
   \<and> (\<forall>v \<in> set (backoff_calls n httpBackoff_init). v \<le> 320000)
   \<and> sorted (backoff_calls n rateBackoff_init)
   \<and> (\<forall>v \<in> set (backoff_calls n rateBackoff_init). v \<le> 2147483647)"
proof -
  have call: "backoff_call b =
      (if current b > max_b b then Inl Exceeded_rate_limit
       else Inr (current b, b\<lparr>current := step b (current b)\<rparr>))"
    by (simp add: backoff_call_def Let_def)
  have ret: "(\<exists>v b'. backoff_call b = Inr (v, b')) \<longleftrightarrow> current b \<le> max_b b"
    by (simp add: backoff_call_def Let_def)
  have thr: "backoff_call b = Inl Exceeded_rate_limit \<longleftrightarrow> current b > max_b b"
    by (simp add: backoff_call_def Let_def)
  have net: "sorted (backoff_calls n networkBackoff_init) \<and>
      (\<forall>v \<in> set (backoff_calls n networkBackoff_init).
         current networkBackoff_init \<le> v \<and> v \<le> max_b networkBackoff_init)"
    by (rule backoff_calls_sorted_bounded [where lo = 0])
       (simp_all add: networkBackoff_init_def backoff_def)
  have http: "sorted (backoff_calls n httpBackoff_init) \<and>
      (\<forall>v \<in> set (backoff_calls n httpBackoff_init).
         current httpBackoff_init \<le> v \<and> v \<le> max_b httpBackoff_init)"
    by (rule backoff_calls_sorted_bounded [where lo = 0])
       (simp_all add: httpBackoff_init_def backoff_def)
  have rate: "sorted (backoff_calls n rateBackoff_init) \<and>
      (\<forall>v \<in> set (backoff_calls n rateBackoff_init).
         current rateBackoff_init \<le> v \<and> v \<le> max_b rateBackoff_init)"
    by (rule backoff_calls_sorted_bounded [where lo = 0])
       (simp_all add: rateBackoff_init_def backoff_def)
  have net_max: "max_b networkBackoff_init = 16000"
    by (simp add: networkBackoff_init_def backoff_def)
  have http_max: "max_b httpBackoff_init = 320000"
    by (simp add: httpBackoff_init_def backoff_def)
  have rate_max: "max_b rateBackoff_init = 2147483647"
    by (simp add: rateBackoff_init_def backoff_def)
  show ?thesis
    using call ret thr net http rate
    unfolding net_max http_max rate_max by blast
qed

theorem backoff_next_contract_witness:
  "backoff_calls 3 networkBackoff_init = [0, 250, 500]
   \<and> backoff_calls 3 httpBackoff_init = [1000, 2000, 4000]
   \<and> backoff_calls 2 rateBackoff_init = [1000, 2000]
   \<and> sorted (backoff_calls 3 networkBackoff_init)
   \<and> (500::int) \<in> set (backoff_calls 3 networkBackoff_init) \<and> (500::int) \<le> 16000
   \<and> backoff_call (backoff 16250 16000 (\<lambda>x. x + 250)) = Inl Exceeded_rate_limit"
proof -
  have a: "backoff_calls 3 networkBackoff_init = [0, 250, 500]"
    by (simp add: numeral_3_eq_3 networkBackoff_init_def backoff_def backoff_call_def)
  have b: "backoff_calls 3 httpBackoff_init = [1000, 2000, 4000]"
    by (simp add: numeral_3_eq_3 httpBackoff_init_def backoff_def backoff_call_def)
  have c: "backoff_calls 2 rateBackoff_init = [1000, 2000]"
    by (simp add: numeral_2_eq_2 rateBackoff_init_def backoff_def backoff_call_def)
  have d: "backoff_call (backoff 16250 16000 (\<lambda>x. x + 250)) = Inl Exceeded_rate_limit"
    using backoff_next_contract [of "backoff 16250 16000 (\<lambda>x. x + 250)" 3]
    by (simp add: backoff_def)
  show ?thesis
    using backoff_next_contract [of "backoff 16250 16000 (\<lambda>x. x + 250)" 3] a b c d
    by simp
qed

text \<open>
  C6. For a raw delay \<open>R \<ge> 0\<close> and a draw \<open>0 \<le> U < 1\<close>, the jittered delay
  \<open>R + (R * U * 0.5 - R * 0.25)\<close> lies between \<open>0.75 * R\<close> and \<open>1.25 * R\<close>.
\<close>

theorem jitter_bounds:
  assumes "0 \<le> R" and "0 \<le> U" and "U < 1"
  shows "0.75 * R \<le> jitter R U \<and> jitter R U \<le> 1.25 * R"
proof -
  have eq: "jitter R U = R * (0.75 + 0.5 * U)"
    by (simp add: jitter_def Let_def algebra_simps)
  have lo: "R * 0.75 \<le> R * (0.75 + 0.5 * U)"
    using assms by (intro mult_left_mono) simp_all
  have hi: "R * (0.75 + 0.5 * U) \<le> R * 1.25"
    using assms by (intro mult_left_mono) simp_all
  show ?thesis
    using lo hi unfolding eq by (simp add: mult.commute)
qed

theorem jitter_bounds_witness:
  "(0::real) \<le> 1000 \<and> (0::real) \<le> 0.5 \<and> (0.5::real) < 1
   \<and> 0.75 * 1000 \<le> jitter 1000 0.5 \<and> jitter 1000 0.5 \<le> 1.25 * 1000
   \<and> jitter 1000 0.5 = 1000"
proof -
  have v: "jitter 1000 0.5 = 1000"
    by (simp add: jitter_def Let_def)
  show ?thesis
    using jitter_bounds [of 1000 "0.5"] v by simp
qed

section \<open>Evaluation of the example clients\<close>

lemmas filter_eval =
  track_def untrack_def addFilter_def removeFilter_def keyword_list_def addFilter_keyword_def
  get_property_def set_property_def delete_property_def object_prototype_functions_def
  reconnect_flag_def Object_keys_def array_index_def digit_value_def index_of_def

lemmas client_eval =
  reconnect_def connect_def hasFilters_def tracking_def locations_def following_def
  languages_def abort_def clearTimeout_def remove_timer_def setTimeout_def emit_def backoffs_def backoff_def
  backoff_call_def jitter_def timeoutInterval_def errorExplanation_def

lemma abort_alt:
  "abort s =
     s\<lparr>parser_destroyed := (if parser s then parser_destroyed s + 1 else parser_destroyed s),
       timers := remove_timer (timeout s) (timers s),
       aborted := aborted s @ (case stream s of None \<Rightarrow> [] | Some r \<Rightarrow> [r]),
       stream := None\<rparr>"
  by (simp add: abort_def clearTimeout_def Let_def split: option.splits)

lemma hasFilters_filters:
  "filters s' = filters s \<Longrightarrow> hasFilters s' = hasFilters s"
  by (simp add: hasFilters_def tracking_def locations_def following_def languages_def)

lemma connect_alt:
  "connect s =
     (if hasFilters s
      then s\<lparr>stale := Some False,
             stream := Some (length (requests s)),
             requests := requests s @
               [\<lparr>form_track = join '','' (tracking s),
                 form_locations = join '','' (locations s),
                 form_follow = join '','' (following s),
                 form_language = join '','' (languages s)\<rparr>],
             error_listeners := error_listeners s + 1\<rparr>
      else s\<lparr>stale := Some False\<rparr>)"
  by (simp add: connect_def hasFilters_def tracking_def locations_def following_def
      languages_def Let_def)

lemma Object_keys_Nil: "Object_keys [] = []"
  by (simp add: Object_keys_def)

lemma untrackAll_new:
  "untrackAll (Some False) new_client = new_client\<lparr>stale := Some True\<rparr>"
  by (simp add: untrackAll_def removeAllFilters_def reconnect_flag_def new_client_def Let_def
      fun_eq_iff)

lemma tracking_client_eq:
  "tracking_client =
     new_client\<lparr>filters := (\<lambda>f. [])(FILTER_TYPE_TRACKING := [(''a'', Number 1)]),
       stale := Some False, stream := Some 0,
       requests := [\<lparr>form_track = ''a'', form_locations = [], form_follow = [],
                     form_language = []\<rparr>],
       error_listeners := 1\<rparr>"
  by (simp add: tracking_client_def filter_eval client_eval new_client_def Let_def)

lemma streaming_client_eq:
  "response_handler 200 0 tracking_client = Inr streaming_client
   \<and> streaming_client =
     tracking_client\<lparr>parser := True, timeout := Some 0,
       timers := [(0, Stall_close, 90000)], timer_count := 1,
       emitted := [Connect_event]\<rparr>"
  by (simp add: streaming_client_def the_client_def response_handler_def tracking_client_eq
      client_eval new_client_def Let_def)

lemma hasFilters_tracking_client: "hasFilters tracking_client"
  by (simp add: tracking_client_eq new_client_def hasFilters_def tracking_def filter_eval)

lemma snapshots_tracking_client:
  "tracking tracking_client = [''a'']" "locations tracking_client = []"
  "following tracking_client = []" "languages tracking_client = []"
  by (simp_all add: tracking_client_eq new_client_def tracking_def locations_def
      following_def languages_def filter_eval)

section \<open>connect\<close>

text \<open>
  C2, as the code has it. With all four filter kinds empty, \<^verbatim>\<open>connect()\<close> issues no request
  and changes nothing but the stale flag, which it clears. With a kind that is not empty
  it clears the stale flag and issues one request (registering its error listener),
  whose form body holds the four snapshots joined by commas; the snapshot of an empty
  kind joins to the empty string.
\<close>

theorem connect_effect:
  "(\<not> hasFilters s \<longrightarrow> connect s = s\<lparr>stale := Some False\<rparr>)
   \<and> (hasFilters s \<longrightarrow>
        connect s =
          s\<lparr>stale := Some False,
            stream := Some (length (requests s)),
            requests := requests s @
              [\<lparr>form_track = join '','' (tracking s),
                form_locations = join '','' (locations s),
                form_follow = join '','' (following s),
                form_language = join '','' (languages s)\<rparr>],
            error_listeners := error_listeners s + 1\<rparr>)
   \<and> (tracking s = [] \<longrightarrow> join '','' (tracking s) = [])
   \<and> (locations s = [] \<longrightarrow> join '','' (locations s) = [])
   \<and> (following s = [] \<longrightarrow> join '','' (following s) = [])
   \<and> (languages s = [] \<longrightarrow> join '','' (languages s) = [])"
  by (simp add: connect_def hasFilters_def tracking_def locations_def following_def
      languages_def Let_def)

theorem connect_effect_witness:
  "\<not> hasFilters (untrackAll (Some False) new_client)
   \<and> connect (untrackAll (Some False) new_client) =
       (untrackAll (Some False) new_client)\<lparr>stale := Some False\<rparr>
   \<and> hasFilters tracking_client
   \<and> locations tracking_client = []
   \<and> requests (connect tracking_client) =
       [\<lparr>form_track = ''a'', form_locations = [], form_follow = [], form_language = []\<rparr>,
        \<lparr>form_track = ''a'', form_locations = [], form_follow = [], form_language = []\<rparr>]
   \<and> stale (connect tracking_client) = Some False
   \<and> stream (connect tracking_client) = Some 1"
proof -
  have nf: "\<not> hasFilters (untrackAll (Some False) new_client)"
    unfolding untrackAll_new
    by (simp add: hasFilters_def tracking_def locations_def following_def languages_def
        new_client_def Object_keys_Nil)
  have rq: "requests tracking_client =
      [\<lparr>form_track = ''a'', form_locations = [], form_follow = [], form_language = []\<rparr>]"
    by (simp add: tracking_client_eq)
  show ?thesis
    using connect_effect [of "untrackAll (Some False) new_client"]
      connect_effect [of tracking_client] nf hasFilters_tracking_client
    by (simp add: snapshots_tracking_client rq)
qed

text \<open>
  The claim as the specification states it fails: after \<^verbatim>\<open>untrackAll(false)\<close> on a new client
  all four kinds are empty and the stale flag is set; \<^verbatim>\<open>connect()\<close> issues no request but
  clears the flag, so the client is not left unchanged.
\<close>

theorem connect_empty_counterexample:
  "\<not> hasFilters (untrackAll (Some False) new_client)
   \<and> stale (untrackAll (Some False) new_client) = Some True
   \<and> stale (connect (untrackAll (Some False) new_client)) = Some False
   \<and> requests (connect (untrackAll (Some False) new_client)) = []
   \<and> connect (untrackAll (Some False) new_client) \<noteq> untrackAll (Some False) new_client"
proof -
  let ?s = "untrackAll (Some False) new_client"
  have nf: "\<not> hasFilters ?s"
    unfolding untrackAll_new
    by (simp add: hasFilters_def tracking_def locations_def following_def languages_def
        new_client_def Object_keys_Nil)
  have st: "stale ?s = Some True"
    unfolding untrackAll_new by simp
  have c: "connect ?s = ?s\<lparr>stale := Some False\<rparr>"
    using nf by (simp add: connect_alt)
  have st': "stale (connect ?s) = Some False"
    unfolding c by simp
  have "requests (connect ?s) = requests ?s"
    unfolding c by simp
  moreover have "requests ?s = []"
    unfolding untrackAll_new by (simp add: new_client_def)
  ultimately have rq: "requests (connect ?s) = []"
    by simp
  have ne: "connect ?s \<noteq> ?s"
  proof
    assume "connect ?s = ?s"
    then have "stale (connect ?s) = stale ?s" by simp
    then show False using st st' by simp
  qed
  show ?thesis using nf st st' rq ne by blast
qed

section \<open>The stall watchdog\<close>

text \<open>
  C9. When the stall timer fires on a client that holds a stream, the stream is aborted,
  a reconnect event with type \<open>stall\<close> and delay 0 is emitted, and \<^verbatim>\<open>connect()\<close> runs on
  the next tick, with no timer in between and whatever the stale flag was (the client
  ends with the flag cleared and, when it has filters, with a new request for them),
  while \<^verbatim>\<open>reconnect()\<close> does nothing unless the flag is set.
\<close>

theorem stall_forces_reconnect:
  assumes pending: "find (\<lambda>t. fst t = h) (timers s) = Some (h, Stall_close, d)"
    and streaming: "stream s = Some r"
    and idle: "ticks s = []"
  shows "aborted (timer_fires h s) = aborted s @ [r]
     \<and> emitted (timer_fires h s) = emitted s @ [Reconnect_event ''stall'' None 0]
     \<and> stale (timer_fires h s) = Some False
     \<and> timer_count (timer_fires h s) = timer_count s
     \<and> ticks (timer_fires h s) = []
     \<and> (if hasFilters s
         then requests (timer_fires h s) = requests s @
                [\<lparr>form_track = join '','' (tracking s),
                  form_locations = join '','' (locations s),
                  form_follow = join '','' (following s),
                  form_language = join '','' (languages s)\<rparr>]
              \<and> stream (timer_fires h s) = Some (length (requests s))
         else requests (timer_fires h s) = requests s \<and> stream (timer_fires h s) = None)
     \<and> (stale s \<noteq> Some True \<longrightarrow> reconnect s = s)"
proof -
  let ?e = "(close (s\<lparr>timers := remove_timer (Some h) (timers s)\<rparr>))\<lparr>ticks := []\<rparr>"
  have queued: "ticks (close (s\<lparr>timers := remove_timer (Some h) (timers s)\<rparr>)) = [Connect_tick]"
    using idle by (simp add: close_def Let_def emit_def abort_alt)
  have fires: "timer_fires h s = connect ?e"
    using pending queued
    by (simp add: timer_fires_def timer_callback_def next_tick_def)
  have hf: "hasFilters ?e = hasFilters s"
    by (rule hasFilters_filters) (simp add: close_def Let_def emit_def abort_alt)
  have gate: "stale s \<noteq> Some True \<longrightarrow> reconnect s = s"
    by (simp add: reconnect_def)
  show ?thesis
    unfolding fires connect_alt hf
    using streaming gate
    by (simp add: close_def Let_def emit_def abort_alt tracking_def locations_def
        following_def languages_def)
qed

theorem stall_forces_reconnect_witness:
  "find (\<lambda>t. fst t = 0) (timers streaming_client) = Some (0, Stall_close, 90000)
   \<and> stream streaming_client = Some 0
   \<and> ticks streaming_client = []
   \<and> stale streaming_client = Some False
   \<and> reconnect streaming_client = streaming_client
   \<and> aborted (timer_fires 0 streaming_client) = [0]
   \<and> emitted (timer_fires 0 streaming_client) =
       [Connect_event, Reconnect_event ''stall'' None 0]
   \<and> requests (timer_fires 0 streaming_client) =
       [\<lparr>form_track = ''a'', form_locations = [], form_follow = [], form_language = []\<rparr>,
        \<lparr>form_track = ''a'', form_locations = [], form_follow = [], form_language = []\<rparr>]
   \<and> stream (timer_fires 0 streaming_client) = Some 1"
proof -
  have sc: "streaming_client =
     tracking_client\<lparr>parser := True, timeout := Some 0,
       timers := [(0, Stall_close, 90000)], timer_count := 1,
       emitted := [Connect_event]\<rparr>"
    using streaming_client_eq by blast
  have p: "find (\<lambda>t. fst t = 0) (timers streaming_client) = Some (0, Stall_close, 90000)"
    by (simp add: sc)
  have st: "stream streaming_client = Some 0"
    by (simp add: sc tracking_client_eq)
  have ti: "ticks streaming_client = []"
    by (simp add: sc tracking_client_eq new_client_def)
  have sl: "stale streaming_client = Some False"
    by (simp add: sc tracking_client_eq)
  have hf: "hasFilters streaming_client"
    using hasFilters_tracking_client hasFilters_filters [of streaming_client tracking_client]
    by (simp add: sc)
  have tr: "tracking streaming_client = [''a'']" "locations streaming_client = []"
    "following streaming_client = []" "languages streaming_client = []"
    by (simp_all add: sc tracking_client_eq new_client_def tracking_def locations_def
        following_def languages_def filter_eval)
  have rq: "requests streaming_client =
      [\<lparr>form_track = ''a'', form_locations = [], form_follow = [], form_language = []\<rparr>]"
    by (simp add: sc tracking_client_eq)
  have ab: "aborted streaming_client = []" "emitted streaming_client = [Connect_event]"
    by (simp_all add: sc tracking_client_eq new_client_def)
  show ?thesis
    using stall_forces_reconnect [OF p st ti] p st ti sl hf
    by (simp add: tr rq ab)
qed

section \<open>The handlers, field by field\<close>

lemma jitter_pos: "0 < r \<Longrightarrow> 0 \<le> u \<Longrightarrow> 0 < jitter r u"
proof -
  assume r: "0 < r" and u: "0 \<le> u"
  have eq: "jitter r u = r * (0.75 + 0.5 * u)"
    by (simp add: jitter_def Let_def algebra_simps)
  have "0 < 0.75 + 0.5 * u" using u by simp
  then show ?thesis unfolding eq using r by simp
qed

lemma jitter_zero: "jitter 0 u = 0"
  by (simp add: jitter_def)

lemma errorExplanation_420:
  "errorExplanation 420 =
     Some \<lparr>etype = ''rate-limit'', long = ''The client has connected too frequently.''\<rparr>"
  by (simp add: errorExplanation_def)

lemma remove_timer_twice:
  "remove_timer h (remove_timer h ts) = remove_timer h ts"
  by (simp add: remove_timer_def split: option.splits)

lemma remove_timer_append:
  "remove_timer h (ts @ us) = remove_timer h ts @ remove_timer h us"
  by (simp add: remove_timer_def split: option.splits)

lemma response_420:
  assumes "current (rateBackoff s) \<le> max_b (rateBackoff s)"
  shows "\<exists>s'. response_handler 420 u s = Inr s'
      \<and> connectBackoff s' =
          (if connectBackoff s = 0 then jitter (real_of_int (current (rateBackoff s))) u
           else connectBackoff s)
      \<and> timers s' =
          remove_timer (timeout s) (timers s) @
            (if connectBackoff s = 0
             then [(timer_count s, Response_reconnect,
                    jitter (real_of_int (current (rateBackoff s))) u)]
             else [])
      \<and> timer_count s' = (if connectBackoff s = 0 then timer_count s + 1 else timer_count s)
      \<and> emitted s' =
          emitted s @
            [Reconnect_event ''rate-limit'' (errorExplanation 420)
               (if connectBackoff s = 0 then jitter (real_of_int (current (rateBackoff s))) u
                else connectBackoff s)]
      \<and> rateBackoff s' =
          (rateBackoff s)\<lparr>current := step (rateBackoff s) (current (rateBackoff s))\<rparr>
      \<and> timeout s' = timeout s
      \<and> stream s' = None"
  using assms
  by (simp add: response_handler_def backoff_call_cases Let_def abort_alt setTimeout_def
      emit_def errorExplanation_420)

lemma backoffs_fields:
  "networkBackoff (backoffs s) = networkBackoff_init"
  "httpBackoff (backoffs s) = httpBackoff_init"
  "rateBackoff (backoffs s) = rateBackoff_init"
  by (simp_all add: backoffs_def networkBackoff_init_def httpBackoff_init_def
      rateBackoff_init_def)

lemma response_200:
  "\<exists>s'. response_handler 200 u s = Inr s'
     \<and> networkBackoff s' = networkBackoff_init
     \<and> httpBackoff s' = httpBackoff_init
     \<and> rateBackoff s' = rateBackoff_init
     \<and> emitted s' = emitted s @ [Connect_event]
     \<and> connectBackoff s' = connectBackoff s
     \<and> timeout s' = Some (timer_count s)
     \<and> timers s' = timers s @ [(timer_count s, Stall_close, timeoutInterval)]"
  by (simp add: response_handler_def Let_def setTimeout_def emit_def backoffs_fields)
    (simp add: backoffs_def)

text \<open>
  A response with any other status above 200 aborts and emits the error event; the
  listener that \<^verbatim>\<open>connect\<close> registered then throws, so the handler does not return.
\<close>

lemma response_fatal:
  assumes "status \<noteq> 420" and "status \<noteq> 503" and "200 < status"
  shows "\<exists>s'. response_handler status u s =
             Inl (if error_listeners s = 0 then Unhandled_error_event else TypeError, s')
      \<and> emitted s' = emitted s @ [Error_event status (errorExplanation status)]
      \<and> error_listeners s' = error_listeners s - 1
      \<and> stream s' = None
      \<and> timers s' = remove_timer (timeout s) (timers s)
      \<and> timer_count s' = timer_count s"
  using assms
  by (simp add: response_handler_def emit_error_def Let_def abort_alt emit_def)

lemma error_handler_result:
  assumes "current (networkBackoff s) \<le> max_b (networkBackoff s)"
  shows "\<exists>s'. error_handler u s = Inr s'
      \<and> networkBackoff s' =
          (networkBackoff s)\<lparr>current := step (networkBackoff s) (current (networkBackoff s))\<rparr>
      \<and> backoff_call (networkBackoff (abort s)) = Inr (current (networkBackoff s), networkBackoff s')
      \<and> connectBackoff s' =
          (if connectBackoff s = 0 then jitter (real_of_int (current (networkBackoff s))) u
           else connectBackoff s)
      \<and> timers s' =
          remove_timer (timeout s) (timers s) @
            (if connectBackoff s = 0
             then [(timer_count s, Network_reconnect,
                    jitter (real_of_int (current (networkBackoff s))) u)]
             else [])
      \<and> timer_count s' = (if connectBackoff s = 0 then timer_count s + 1 else timer_count s)
      \<and> emitted s' =
          emitted s @
            [Reconnect_event ''network'' None
               (if connectBackoff s = 0 then jitter (real_of_int (current (networkBackoff s))) u
                else connectBackoff s)]
      \<and> stream s' = None
      \<and> aborted s' = aborted s @ (case stream s of None \<Rightarrow> [] | Some r \<Rightarrow> [r])
      \<and> timeout s' = timeout s"
  using assms
  by (simp add: error_handler_def backoff_call_cases Let_def abort_alt setTimeout_def emit_def)

lemma error_handler_Inr:
  assumes "error_handler u s = Inr s'"
  shows "current (networkBackoff s) \<le> max_b (networkBackoff s)"
  using assms
  by (simp add: error_handler_def backoff_call_cases Let_def abort_alt split: if_splits)

lemma streaming_client_state:
  "streaming_client =
     tracking_client\<lparr>parser := True, timeout := Some 0,
       timers := [(0, Stall_close, 90000)], timer_count := 1,
       emitted := [Connect_event]\<rparr>"
  using streaming_client_eq by blast

lemma streaming_client_fields:
  "connectBackoff streaming_client = 0"
  "rateBackoff streaming_client = rateBackoff_init"
  "networkBackoff streaming_client = networkBackoff_init"
  "timeout streaming_client = Some 0"
  "timer_count streaming_client = 1"
  "timers streaming_client = [(0, Stall_close, 90000)]"
  "emitted streaming_client = [Connect_event]"
  "stream streaming_client = Some 0"
  "aborted streaming_client = []"
  by (simp_all add: streaming_client_state tracking_client_eq new_client_def
      rateBackoff_init_def networkBackoff_init_def)

lemma tracking_client_fields:
  "connectBackoff tracking_client = 0"
  "rateBackoff tracking_client = rateBackoff_init"
  "networkBackoff tracking_client = networkBackoff_init"
  "timeout tracking_client = None"
  "timer_count tracking_client = 0"
  "timers tracking_client = []"
  "emitted tracking_client = []"
  "stream tracking_client = Some 0"
  "aborted tracking_client = []"
  by (simp_all add: tracking_client_eq new_client_def rateBackoff_init_def
      networkBackoff_init_def)

section \<open>Resetting the backoffs\<close>

text \<open>
  C5. A response with status 200 always returns and leaves the three backoff sequences
  at their initial values (network 0, +250, ceiling 16000; http 1000, doubled, ceiling
  320000; rate 1000, doubled, ceiling 2147483647), so that the next network failure draws
  the raw delay 0, whereas a network failure that returns advances the network sequence
  by its step.
\<close>

theorem success_resets_backoffs:
  "(\<exists>s2. response_handler 200 u2 s1 = Inr s2
       \<and> networkBackoff s2 = backoff 0 16000 (\<lambda>x. x + 250)
       \<and> httpBackoff s2 = backoff 1000 320000 (\<lambda>x. x * 2)
       \<and> rateBackoff s2 = backoff 1000 2147483647 (\<lambda>x. x * 2)
       \<and> (\<exists>s3. error_handler u3 s2 = Inr s3
            \<and> backoff_call (networkBackoff (abort s2)) = Inr (0, networkBackoff s3)
            \<and> current (networkBackoff s3) = 250))
   \<and> (error_handler u1 s = Inr s1 \<longrightarrow>
        current (networkBackoff s1) = step (networkBackoff s) (current (networkBackoff s)))"
proof -
  obtain s2 where r: "response_handler 200 u2 s1 = Inr s2"
    and n: "networkBackoff s2 = networkBackoff_init"
    and h: "httpBackoff s2 = httpBackoff_init"
    and ra: "rateBackoff s2 = rateBackoff_init"
    using response_200 [of u2 s1] by auto
  have ok: "current (networkBackoff s2) \<le> max_b (networkBackoff s2)"
    by (simp add: n networkBackoff_init_def backoff_def)
  obtain s3 where e: "error_handler u3 s2 = Inr s3"
    and n3: "networkBackoff s3 =
          (networkBackoff s2)\<lparr>current := step (networkBackoff s2) (current (networkBackoff s2))\<rparr>"
    and raw: "backoff_call (networkBackoff (abort s2)) = Inr (current (networkBackoff s2), networkBackoff s3)"
    using error_handler_result [OF ok, of u3] by auto
  have c0: "current (networkBackoff s2) = 0"
    by (simp add: n networkBackoff_init_def backoff_def)
  have c3: "current (networkBackoff s3) = 250"
    by (simp add: n3 n networkBackoff_init_def backoff_def)
  have adv: "error_handler u1 s = Inr s1 \<longrightarrow>
        current (networkBackoff s1) = step (networkBackoff s) (current (networkBackoff s))"
  proof
    assume a: "error_handler u1 s = Inr s1"
    from error_handler_result [OF error_handler_Inr [OF a], of u1] a
    show "current (networkBackoff s1) = step (networkBackoff s) (current (networkBackoff s))"
      by auto
  qed
  have inits: "networkBackoff s2 = backoff 0 16000 (\<lambda>x. x + 250)"
    "httpBackoff s2 = backoff 1000 320000 (\<lambda>x. x * 2)"
    "rateBackoff s2 = backoff 1000 2147483647 (\<lambda>x. x * 2)"
    by (simp_all add: n h ra networkBackoff_init_def httpBackoff_init_def rateBackoff_init_def)
  show ?thesis
    using r inits e raw c0 c3 adv by auto
qed

theorem success_resets_backoffs_witness:
  "\<exists>s1. error_handler (1 / 2) tracking_client = Inr s1
     \<and> current (networkBackoff tracking_client) = 0
     \<and> current (networkBackoff s1) = 250
     \<and> (\<exists>s2. response_handler 200 0 s1 = Inr s2
          \<and> (\<exists>s3. error_handler (1 / 2) s2 = Inr s3
               \<and> backoff_call (networkBackoff (abort s2)) = Inr (0, networkBackoff s3)))"
proof -
  have ok: "current (networkBackoff tracking_client) \<le> max_b (networkBackoff tracking_client)"
    by (simp add: tracking_client_fields networkBackoff_init_def backoff_def)
  obtain s1 where e: "error_handler (1 / 2) tracking_client = Inr s1"
    using error_handler_result [OF ok, of "1 / 2"] by auto
  have st: "step (networkBackoff tracking_client) (current (networkBackoff tracking_client)) = 250"
    "current (networkBackoff tracking_client) = 0"
    by (simp_all add: tracking_client_fields networkBackoff_init_def backoff_def)
  show ?thesis
    using success_resets_backoffs [of 0 s1 "1 / 2" "1 / 2" tracking_client] e st
    by auto
qed

section \<open>Network failures\<close>

lemmas handler_eval =
  error_handler_def response_handler_def timer_fires_def timer_callback_def next_tick_def
  close_def the_client_def

lemma first_failure_eq:
  "error_handler (1 / 2) tracking_client = Inr first_failure
   \<and> first_failure =
      tracking_client\<lparr>stream := None, aborted := [0],
        networkBackoff := backoff 250 16000 (\<lambda>x. x + 250),
        timers := [(0, Network_reconnect, 0)], timer_count := 1,
        emitted := [Reconnect_event ''network'' None 0]\<rparr>"
  by (simp add: first_failure_def handler_eval tracking_client_eq new_client_def client_eval
      Let_def)

lemma first_failure_state:
  "first_failure =
      tracking_client\<lparr>stream := None, aborted := [0],
        networkBackoff := backoff 250 16000 (\<lambda>x. x + 250),
        timers := [(0, Network_reconnect, 0)], timer_count := 1,
        emitted := [Reconnect_event ''network'' None 0]\<rparr>"
  using first_failure_eq by blast

lemma first_retry_state:
  "first_retry =
      first_failure\<lparr>timers := [], inConnectBackoff := Some 0, stream := Some 1,
        requests := [\<lparr>form_track = ''a'', form_locations = [], form_follow = [],
                       form_language = []\<rparr>,
                     \<lparr>form_track = ''a'', form_locations = [], form_follow = [],
                       form_language = []\<rparr>],
        error_listeners := 2\<rparr>"
  by (simp add: first_retry_def first_failure_state handler_eval tracking_client_eq
      new_client_def client_eval filter_eval Let_def)

lemma second_failure_eq:
  "error_handler (1 / 2) first_retry = Inr second_failure
   \<and> second_failure =
      first_retry\<lparr>stream := None, aborted := [0, 1],
        networkBackoff := backoff 500 16000 (\<lambda>x. x + 250),
        connectBackoff := 250,
        timers := [(1, Network_reconnect, 250)], timer_count := 2,
        emitted := [Reconnect_event ''network'' None 0, Reconnect_event ''network'' None 250]\<rparr>"
  by (simp add: second_failure_def first_retry_state first_failure_state handler_eval
      tracking_client_eq new_client_def client_eval Let_def)

lemma second_failure_state:
  "second_failure =
      first_retry\<lparr>stream := None, aborted := [0, 1],
        networkBackoff := backoff 500 16000 (\<lambda>x. x + 250),
        connectBackoff := 250,
        timers := [(1, Network_reconnect, 250)], timer_count := 2,
        emitted := [Reconnect_event ''network'' None 0, Reconnect_event ''network'' None 250]\<rparr>"
  using second_failure_eq by blast

lemma second_retry_state:
  "second_retry =
      second_failure\<lparr>timers := [], inConnectBackoff := Some 0, stream := Some 2,
        requests := [\<lparr>form_track = ''a'', form_locations = [], form_follow = [],
                       form_language = []\<rparr>,
                     \<lparr>form_track = ''a'', form_locations = [], form_follow = [],
                       form_language = []\<rparr>,
                     \<lparr>form_track = ''a'', form_locations = [], form_follow = [],
                       form_language = []\<rparr>],
        error_listeners := 3\<rparr>"
  by (simp add: second_retry_def second_failure_state first_retry_state first_failure_state
      handler_eval tracking_client_eq new_client_def client_eval filter_eval Let_def)

lemma third_failure_eq:
  "error_handler (1 / 2) second_retry = Inr third_failure
   \<and> third_failure =
      second_retry\<lparr>stream := None, aborted := [0, 1, 2],
        networkBackoff := backoff 750 16000 (\<lambda>x. x + 250),
        emitted := [Reconnect_event ''network'' None 0, Reconnect_event ''network'' None 250,
                    Reconnect_event ''network'' None 250]\<rparr>"
  by (simp add: third_failure_def second_retry_state second_failure_state first_retry_state
      first_failure_state handler_eval tracking_client_eq new_client_def client_eval Let_def)

text \<open>
  The two reconnect callbacks differ in the field they reset: the one the response
  handler schedules clears \<^verbatim>\<open>connectBackoff\<close>, the one the error handler schedules leaves it.
\<close>

lemma reconnect_timer_callbacks:
  "connectBackoff (timer_callback Response_reconnect s) = 0"
  "connectBackoff (timer_callback Network_reconnect s) = connectBackoff s"
  "inConnectBackoff (timer_callback Network_reconnect s) = Some 0"
  by (simp_all add: timer_callback_def connect_alt)

text \<open>
  C1 fails on the code. The callback of the timer a network failure schedules assigns
  \<^verbatim>\<open>self.inConnectBackoff = 0\<close> (line 360) where the callback of the response handler
  assigns \<^verbatim>\<open>self.connectBackoff = 0\<close> (line 287), so \<^verbatim>\<open>connectBackoff\<close> stays at the delay of
  the timer after it has fired. On a client tracking one keyword, with three network
  failures and the draw \<open>1/2\<close> each time: the first failure schedules a timer (delay 0),
  which fires and reconnects; the second schedules a timer (delay 250), which fires and
  reconnects; the third failure finds no timer pending, schedules none and leaves the
  client without a stream, though it emits its reconnect event (with the delay 250 of
  the timer that has fired).
\<close>

theorem network_failure_after_fired_timer:
  "error_handler (1 / 2) tracking_client = Inr first_failure
   \<and> timers first_failure = [(0, Network_reconnect, 0)]
   \<and> first_retry = timer_fires 0 first_failure
   \<and> error_handler (1 / 2) first_retry = Inr second_failure
   \<and> timers second_failure = [(1, Network_reconnect, 250)]
   \<and> second_retry = timer_fires 1 second_failure
   \<and> timers second_retry = []
   \<and> stream second_retry = Some 2
   \<and> connectBackoff second_retry = 250
   \<and> inConnectBackoff second_retry = Some 0
   \<and> error_handler (1 / 2) second_retry = Inr third_failure
   \<and> timers third_failure = []
   \<and> timer_count third_failure = timer_count second_retry
   \<and> stream third_failure = None
   \<and> ticks third_failure = []
   \<and> emitted third_failure =
       [Reconnect_event ''network'' None 0, Reconnect_event ''network'' None 250,
        Reconnect_event ''network'' None 250]"
proof -
  have t: "third_failure =
      second_retry\<lparr>stream := None, aborted := [0, 1, 2],
        networkBackoff := backoff 750 16000 (\<lambda>x. x + 250),
        emitted := [Reconnect_event ''network'' None 0, Reconnect_event ''network'' None 250,
                    Reconnect_event ''network'' None 250]\<rparr>"
    using third_failure_eq by blast
  have a: "timers first_failure = [(0, Network_reconnect, 0)]"
    by (simp add: first_failure_state)
  have b: "timers second_failure = [(1, Network_reconnect, 250)]"
    by (simp add: second_failure_state)
  have c: "timers second_retry = []" "stream second_retry = Some 2"
    "connectBackoff second_retry = 250" "inConnectBackoff second_retry = Some 0"
    by (simp_all add: second_retry_state second_failure_state)
  have d: "timers third_failure = []" "timer_count third_failure = timer_count second_retry"
    "stream third_failure = None"
    "emitted third_failure =
       [Reconnect_event ''network'' None 0, Reconnect_event ''network'' None 250,
        Reconnect_event ''network'' None 250]"
    by (simp_all add: t c)
  have e: "ticks third_failure = []"
    by (simp add: t second_retry_state second_failure_state first_retry_state
        first_failure_state tracking_client_eq new_client_def)
  show ?thesis
    using first_failure_eq second_failure_eq third_failure_eq a b c d e
    by (simp add: first_retry_def second_retry_def)
qed

section \<open>Classifying records\<close>

text \<open>
  C8, as the code has it. For every decoded record (any value but \<^verbatim>\<open>null\<close>), \<^verbatim>\<open>_write\<close> tests
  the eight fields in the order text, delete, scrub_geo, limit, status_withheld,
  user_withheld, disconnect, warning for a truthy value, emits exactly one event, for the
  first field whose value is truthy (the tweet event with the record for text, else the
  event named after the field with the field's value), and emits nothing when none of
  the eight has a truthy value.
\<close>

theorem write_record_first_truthy:
  assumes "data \<noteq> JNull" and "data \<noteq> JUndefined"
  shows "write_record data s =
           Inr (case first_truthy data of
                  None \<Rightarrow> s
                | Some name \<Rightarrow> emit (record_event data name) s)
     \<and> emitted (the_client (write_record data s)) =
         emitted s @ (case first_truthy data of
                        None \<Rightarrow> []
                      | Some name \<Rightarrow> [record_event data name])
     \<and> record_fields =
         [''text'', ''delete'', ''scrub_geo'', ''limit'', ''status_withheld'',
          ''user_withheld'', ''disconnect'', ''warning'']"
  using assms
  by (simp add: write_record_def first_truthy_def record_fields_def record_event_def
      the_client_def emit_def)

theorem write_record_first_truthy_witness:
  "JObject [(''limit'', JObject [(''track'', JNumber 5)]), (''warning'', JString ''w'')] \<noteq> JNull
   \<and> first_truthy
        (JObject [(''limit'', JObject [(''track'', JNumber 5)]), (''warning'', JString ''w'')])
       = Some ''limit''
   \<and> emitted (the_client (write_record
        (JObject [(''limit'', JObject [(''track'', JNumber 5)]), (''warning'', JString ''w'')])
        new_client))
       = [Record_event ''limit'' (JObject [(''track'', JNumber 5)])]
   \<and> first_truthy (JObject [(''friends'', JArray [])]) = None
   \<and> write_record (JObject [(''friends'', JArray [])]) new_client = Inr new_client"
proof -
  let ?d = "JObject [(''limit'', JObject [(''track'', JNumber 5)]), (''warning'', JString ''w'')]"
  let ?n = "JObject [(''friends'', JArray [])]"
  have f: "first_truthy ?d = Some ''limit''"
    by (simp add: first_truthy_def record_fields_def)
  have g: "first_truthy ?n = None"
    by (simp add: first_truthy_def record_fields_def)
  have e: "emitted new_client = []"
    by (simp add: new_client_def)
  have ne: "?d \<noteq> JNull" "?d \<noteq> JUndefined" "?n \<noteq> JNull" "?n \<noteq> JUndefined"
    by simp_all
  have "emitted (the_client (write_record ?d new_client)) =
      emitted new_client @ (case first_truthy ?d of None \<Rightarrow> []
                            | Some name \<Rightarrow> [record_event ?d name])"
    using write_record_first_truthy [OF ne(1,2), of new_client] by blast
  then have a: "emitted (the_client (write_record ?d new_client))
      = [Record_event ''limit'' (JObject [(''track'', JNumber 5)])]"
    by (simp add: f e record_event_def)
  have "write_record ?n new_client =
      Inr (case first_truthy ?n of None \<Rightarrow> new_client
           | Some name \<Rightarrow> emit (record_event ?n name) new_client)"
    using write_record_first_truthy [OF ne(3,4), of new_client] by blast
  then have b: "write_record ?n new_client = Inr new_client"
    by (simp add: g)
  show ?thesis
    using a b f g by simp
qed

text \<open>
  The claim as the specification states it, by presence of the field, fails: a record
  whose \<^verbatim>\<open>text\<close> is the empty string has the field but gets no event, and with a \<^verbatim>\<open>delete\<close>
  field beside it gets the delete event instead of the tweet event.
\<close>

theorem write_record_presence_counterexample:
  "first_present (JObject [(''text'', JString [])]) = Some ''text''
   \<and> write_record (JObject [(''text'', JString [])]) new_client = Inr new_client
   \<and> first_present (JObject [(''text'', JString []), (''delete'', JObject [])]) = Some ''text''
   \<and> emitted (the_client (write_record
        (JObject [(''text'', JString []), (''delete'', JObject [])]) new_client))
       = [Record_event ''delete'' (JObject [])]"
  by (simp add: first_present_def record_fields_def write_record_def the_client_def emit_def
      new_client_def)

section \<open>Reference counts of keywords\<close>

lemma reconnect_filters: "filters (reconnect s) = filters s"
  by (simp add: reconnect_def connect_alt abort_alt)

lemma get_property_plain:
  "\<not> inherited k \<Longrightarrow>
     get_property obj k = (case map_of obj k of None \<Rightarrow> Undefined | Some v \<Rightarrow> v)"
  by (simp add: get_property_def inherited_def split: option.splits)

lemma set_property_plain:
  "\<not> inherited k \<Longrightarrow> map_of (set_property obj k v) = (map_of obj)(k \<mapsto> v)"
  by (simp add: set_property_def inherited_def AList.update_conv')

lemma delete_property_map: "map_of (delete_property obj k) = (map_of obj)(k := None)"
  by (simp add: delete_property_def AList.delete_conv')

lemma addFilter_keyword_agree:
  assumes "\<not> inherited k" and "counts_agree (filters s f) c"
  shows "counts_agree (filters (fst (addFilter_keyword f k (s, a))) f) (c(k := c k + 1))"
proof (cases "c k = 0")
  case True
  then have m: "map_of (filters s f) k = None"
    using assms(2) by (simp add: counts_agree_def)
  show ?thesis
    using assms m True
    by (simp add: addFilter_keyword_def Let_def get_property_plain set_property_plain
        counts_agree_def)
next
  case False
  then have m: "map_of (filters s f) k = Some (Number (int (c k)))"
    using assms(2) by (simp add: counts_agree_def)
  show ?thesis
    using assms m False
    by (simp add: addFilter_keyword_def Let_def get_property_plain set_property_plain
        counts_agree_def)
qed

lemma fold_addFilter_keyword_agree:
  assumes "\<forall>k \<in> set ks. \<not> inherited k" and "counts_agree (filters s f) c"
  shows "counts_agree (filters (fst (fold (addFilter_keyword f) ks (s, a))) f)
           (fold (\<lambda>k c'. c'(k := c' k + 1)) ks c)"
  using assms
proof (induction ks arbitrary: s a c)
  case Nil
  then show ?case by simp
next
  case (Cons k ks)
  obtain s' a' where st: "addFilter_keyword f k (s, a) = (s', a')"
    by (cases "addFilter_keyword f k (s, a)")
  have step: "counts_agree (filters s' f) (c(k := c k + 1))"
    using addFilter_keyword_agree [of k s f c a] Cons.prems st by simp
  have rest: "\<forall>k \<in> set ks. \<not> inherited k"
    using Cons.prems(1) by simp
  have "counts_agree (filters (fst (fold (addFilter_keyword f) ks (s', a'))) f)
           (fold (\<lambda>k c'. c'(k := c' k + 1)) ks (c(k := c k + 1)))"
    by (rule Cons.IH [OF rest step])
  then show ?case
    by (simp only: fold_simps o_apply st)
qed

lemma addFilter_agree:
  assumes "\<forall>k \<in> set (keyword_list ks). \<not> inherited k" and "counts_agree (filters s f) c"
  shows "counts_agree (filters (addFilter f ks r s) f) (count_call (Add ks r) c)"
  using fold_addFilter_keyword_agree [OF assms, of False]
  by (simp add: addFilter_def Let_def reconnect_filters)

lemma removeFilter_agree:
  assumes "\<not> inherited k" and "counts_agree (filters s f) c"
  shows "counts_agree (filters (removeFilter f k r s) f) (count_call (Remove k r) c)"
proof (cases "c k = 0")
  case True
  then have m: "map_of (filters s f) k = None"
    using assms(2) by (simp add: counts_agree_def)
  show ?thesis
    using assms m True
    by (simp add: removeFilter_def Let_def get_property_plain)
next
  case False
  then have m: "map_of (filters s f) k = Some (Number (int (c k)))"
    using assms(2) by (simp add: counts_agree_def)
  show ?thesis
  proof (cases "c k = 1")
    case True
    show ?thesis
      using assms m True
      by (simp add: removeFilter_def Let_def get_property_plain set_property_plain
          delete_property_map reconnect_filters counts_agree_def)
  next
    case F2: False
    have n0: "int (c k) - 1 \<noteq> 0" using False F2 by simp
    have eq: "int (c k - 1) = int (c k) - 1" using False by simp
    show ?thesis
      using assms m False F2 n0
      by (simp add: removeFilter_def Let_def get_property_plain set_property_plain
          counts_agree_def eq)
  qed
qed

lemma apply_call_agree:
  assumes "\<forall>k \<in> set (call_keywords call). \<not> inherited k"
    and "counts_agree (filters s f) c"
  shows "counts_agree (filters (apply_call f call s) f) (count_call call c)"
proof (cases call)
  case (Add ks r)
  then show ?thesis using assms addFilter_agree [of ks s f c r] by simp
next
  case (Remove k r)
  then show ?thesis using assms removeFilter_agree [of k s f c r] by simp
qed

lemma apply_calls_agree:
  assumes "\<forall>call \<in> set calls. \<forall>k \<in> set (call_keywords call). \<not> inherited k"
    and "counts_agree (filters s f) c"
  shows "counts_agree (filters (apply_calls f calls s) f) (fold count_call calls c)"
  using assms unfolding apply_calls_def
proof (induction calls arbitrary: s c)
  case Nil
  then show ?case by simp
next
  case (Cons call calls)
  have "counts_agree (filters (apply_call f call s) f) (count_call call c)"
    using apply_call_agree [of call s f c] Cons.prems by simp
  then show ?case
    using Cons.IH [of "apply_call f call s" "count_call call c"] Cons.prems(1) by simp
qed

lemma set_Object_keys: "set (Object_keys obj) = fst ` set obj"
  by (auto simp add: Object_keys_def Let_def)

lemma counts_agree_keys:
  assumes "counts_agree obj c"
  shows "set (Object_keys obj) = {k. 0 < c k}"
proof -
  have "fst ` set obj = dom (map_of obj)"
    by (simp add: dom_map_of_conv_image_fst)
  also have "\<dots> = {k. 0 < c k}"
    using assms by (auto simp add: counts_agree_def dom_def)
  finally show ?thesis by (simp add: set_Object_keys)
qed

text \<open>
  For keywords that name no property of \<^verbatim>\<open>Object.prototype\<close>, the code keeps the reference
  count the specification describes: after any sequence of add and remove calls on a
  new client, the stored keywords are those of positive net count, each stored with its
  count.
\<close>

lemma refcount_of_plain_keywords:
  assumes "\<forall>call \<in> set calls. \<forall>k \<in> set (call_keywords call). \<not> inherited k"
  shows "set (Object_keys (filters (apply_calls f calls new_client) f))
           = {k. 0 < net_count calls k}
     \<and> (\<forall>k. map_of (filters (apply_calls f calls new_client) f) k =
              (if net_count calls k = 0 then None
               else Some (Number (int (net_count calls k)))))"
proof -
  have "counts_agree (filters new_client f) (\<lambda>k. 0)"
    by (simp add: counts_agree_def new_client_def)
  then have "counts_agree (filters (apply_calls f calls new_client) f) (net_count calls)"
    using apply_calls_agree [OF assms] unfolding net_count_def by simp
  then show ?thesis
    using counts_agree_keys by (simp add: counts_agree_def)
qed

lemma inherited_constructor: "get_property [] ''constructor'' = Inherited_function"
  by (simp add: get_property_def object_prototype_functions_def)

lemma array_index_constructor: "array_index ''constructor'' = None"
  by (simp add: array_index_def digit_value_def)

lemma untrack_constructor:
  "untrack ''constructor'' None new_client =
     new_client\<lparr>filters := (\<lambda>f. [])(FILTER_TYPE_TRACKING := [(''constructor'', NaN)])\<rparr>"
  by (simp add: untrack_def removeFilter_def Let_def inherited_constructor new_client_def
      set_property_def)

lemma track_constructor:
  "track ''constructor'' None new_client = untrack ''constructor'' None new_client"
  unfolding untrack_constructor
  by (simp add: track_def addFilter_def keyword_list_def addFilter_keyword_def Let_def
      inherited_constructor new_client_def set_property_def reconnect_flag_def)

lemma track_constructor_again:
  "filters (track ''constructor'' (Some False) (untrack ''constructor'' None new_client))
     FILTER_TYPE_TRACKING = [(''constructor'', Number 1)]"
  unfolding untrack_constructor
  by (simp add: track_def addFilter_def keyword_list_def addFilter_keyword_def Let_def
      get_property_def new_client_def set_property_def reconnect_flag_def)

text \<open>
  C7 fails on the code for a keyword that names a property every object inherits, since
  the code reads \<^verbatim>\<open>this._filters[filter][keyword]\<close> without an own-property test.
  \<^verbatim>\<open>untrack('constructor')\<close> on a new client finds the inherited function (its \<^verbatim>\<open>typeof\<close> is
  not \<^verbatim>\<open>'undefined'\<close>), decrements it to \<^verbatim>\<open>NaN\<close> and stores that: removing an absent keyword
  makes it present, and the stale flag is not set. \<^verbatim>\<open>track('constructor')\<close> on a new client
  does the same (the inherited function is truthy, and \<^verbatim>\<open>++\<close> stores \<^verbatim>\<open>NaN\<close>), and a remove
  after it leaves the keyword stored although its net count is 0.
\<close>

theorem inherited_keyword_breaks_refcount:
  "apply_calls FILTER_TYPE_TRACKING [Remove ''constructor'' None] new_client
     = untrack ''constructor'' None new_client
   \<and> net_count [Remove ''constructor'' None] ''constructor'' = 0
   \<and> filters (untrack ''constructor'' None new_client) FILTER_TYPE_TRACKING
       = [(''constructor'', NaN)]
   \<and> tracking (untrack ''constructor'' None new_client) = [''constructor'']
   \<and> stale (untrack ''constructor'' None new_client) = None
   \<and> track ''constructor'' None new_client = untrack ''constructor'' None new_client
   \<and> net_count [Add (Single ''constructor'') None, Remove ''constructor'' None]
        ''constructor'' = 0
   \<and> tracking (apply_calls FILTER_TYPE_TRACKING
        [Add (Single ''constructor'') None, Remove ''constructor'' None] new_client)
       = [''constructor'']"
proof -
  have a: "apply_calls FILTER_TYPE_TRACKING [Remove ''constructor'' None] new_client
     = untrack ''constructor'' None new_client"
    by (simp add: apply_calls_def untrack_def)
  have b: "net_count [Remove ''constructor'' None] ''constructor'' = 0"
    by (simp add: net_count_def)
  have c: "filters (untrack ''constructor'' None new_client) FILTER_TYPE_TRACKING
       = [(''constructor'', NaN)]"
    by (simp add: untrack_constructor)
  have d: "tracking (untrack ''constructor'' None new_client) = [''constructor'']"
    by (simp add: tracking_def c Object_keys_def array_index_constructor)
  have "stale (untrack ''constructor'' None new_client) = stale new_client"
    by (simp add: untrack_constructor)
  then have e: "stale (untrack ''constructor'' None new_client) = None"
    by (simp add: new_client_def)
  have f: "net_count [Add (Single ''constructor'') None, Remove ''constructor'' None]
        ''constructor'' = 0"
    by (simp add: net_count_def keyword_list_def)
  have g: "apply_calls FILTER_TYPE_TRACKING
        [Add (Single ''constructor'') None, Remove ''constructor'' None] new_client
      = untrack ''constructor'' None (untrack ''constructor'' None new_client)"
    using track_constructor by (simp add: apply_calls_def untrack_def track_def)
  have h: "filters (untrack ''constructor'' None (untrack ''constructor'' None new_client))
      FILTER_TYPE_TRACKING = [(''constructor'', NaN)]"
    unfolding untrack_constructor
    by (simp add: untrack_def removeFilter_def Let_def get_property_def set_property_def)
  have i: "tracking (apply_calls FILTER_TYPE_TRACKING
        [Add (Single ''constructor'') None, Remove ''constructor'' None] new_client)
       = [''constructor'']"
    unfolding g by (simp add: tracking_def h Object_keys_def array_index_constructor)
  show ?thesis
    using a b c d e f i track_constructor by simp
qed

section \<open>Reconnecting after an add\<close>

lemma addFilter_keyword_fields:
  "requests (fst (addFilter_keyword f k st)) = requests (fst st)"
  "aborted (fst (addFilter_keyword f k st)) = aborted (fst st)"
  "stream (fst (addFilter_keyword f k st)) = stream (fst st)"
  by (simp_all add: addFilter_keyword_def Let_def)

lemma fold_addFilter_keyword_fields:
  "requests (fst (fold (addFilter_keyword f) ks st)) = requests (fst st)
   \<and> aborted (fst (fold (addFilter_keyword f) ks st)) = aborted (fst st)
   \<and> stream (fst (fold (addFilter_keyword f) ks st)) = stream (fst st)"
proof (induction ks arbitrary: st)
  case Nil
  show ?case by simp
next
  case (Cons k ks)
  show ?case
    using Cons.IH [of "addFilter_keyword f k st"]
    by (simp add: addFilter_keyword_fields)
qed

lemma counted_get_property:
  assumes "counted obj k"
  shows "\<exists>n. 0 < n \<and> map_of obj k = Some (Number n) \<and> get_property obj k = Number n"
proof -
  from assms obtain n where n: "map_of obj k = Some (Number n)" "0 < n"
    by (auto simp add: counted_def split: option.splits jsvalue.splits)
  then show ?thesis
    by (simp add: get_property_def)
qed

lemma counted_set_property:
  assumes "counted obj k'" and "0 < n" and "counted obj k"
  shows "counted (set_property obj k (Number n)) k'"
  using assms
  by (simp add: set_property_def counted_def AList.update_conv')

lemma addFilter_keyword_counted:
  assumes "counted (filters s f) k"
  shows "snd (addFilter_keyword f k (s, a)) = a
     \<and> stale (fst (addFilter_keyword f k (s, a))) = stale s
     \<and> (\<forall>k'. counted (filters s f) k' \<longrightarrow>
            counted (filters (fst (addFilter_keyword f k (s, a))) f) k')"
proof -
  obtain n where n: "0 < n" "get_property (filters s f) k = Number n"
    using counted_get_property [OF assms] by blast
  have pos: "0 < n + 1" using n(1) by simp
  show ?thesis
    using n counted_set_property [OF _ pos assms]
    by (simp add: addFilter_keyword_def Let_def)
qed

lemma fold_addFilter_keyword_counted:
  assumes "\<forall>k \<in> set ks. counted (filters s f) k"
  shows "snd (fold (addFilter_keyword f) ks (s, a)) = a
     \<and> stale (fst (fold (addFilter_keyword f) ks (s, a))) = stale s
     \<and> (\<forall>k'. counted (filters s f) k' \<longrightarrow>
            counted (filters (fst (fold (addFilter_keyword f) ks (s, a))) f) k')"
  using assms
proof (induction ks arbitrary: s a)
  case Nil
  show ?case by simp
next
  case (Cons k ks)
  obtain s' a' where st: "addFilter_keyword f k (s, a) = (s', a')"
    by (cases "addFilter_keyword f k (s, a)")
  have k: "counted (filters s f) k"
    using Cons.prems by simp
  have one: "a' = a" "stale s' = stale s"
    "\<forall>k'. counted (filters s f) k' \<longrightarrow> counted (filters s' f) k'"
    using addFilter_keyword_counted [OF k, of a] st by simp_all
  have rest: "\<forall>k \<in> set ks. counted (filters s' f) k"
    using Cons.prems one(3) by simp
  have ih: "snd (fold (addFilter_keyword f) ks (s', a')) = a'
     \<and> stale (fst (fold (addFilter_keyword f) ks (s', a'))) = stale s'
     \<and> (\<forall>k'. counted (filters s' f) k' \<longrightarrow>
            counted (filters (fst (fold (addFilter_keyword f) ks (s', a'))) f) k')"
    by (rule Cons.IH [OF rest])
  have unfold: "fold (addFilter_keyword f) (k # ks) (s, a) = fold (addFilter_keyword f) ks (s', a')"
    by (simp add: st)
  show ?case
    unfolding unfold using ih one by simp
qed

lemma reconnect_at_most_one:
  "length (requests (reconnect s)) \<le> length (requests s) + 1
   \<and> length (aborted (reconnect s)) \<le> length (aborted s) + 1"
  by (simp add: reconnect_def connect_alt abort_alt split: option.splits)

text \<open>
  C10. One call of \<^verbatim>\<open>addFilter\<close> with a list of keywords ends either with the client as the
  loop over all the keywords left it or with one call of \<^verbatim>\<open>reconnect()\<close> on that client:
  the loop issues and aborts no request, and the call issues at most one request and
  aborts at most one. \<^verbatim>\<open>reconnect()\<close> is called only when the reconnect flag is true (or left
  out) and some keyword of the list was not stored with a positive count before the
  call. When every keyword of the list is stored with a positive count before the call,
  \<^verbatim>\<open>reconnect()\<close> is not called, the stale flag, the stream and the requests are as before,
  and every keyword of the list is still stored with a positive count.
\<close>

theorem addFilter_reconnects_at_most_once:
  "(addFilter f ks r s = processed f ks s
      \<or> addFilter f ks r s = reconnect (processed f ks s))
   \<and> requests (processed f ks s) = requests s
   \<and> aborted (processed f ks s) = aborted s
   \<and> stream (processed f ks s) = stream s
   \<and> length (requests (addFilter f ks r s)) \<le> length (requests s) + 1
   \<and> length (aborted (addFilter f ks r s)) \<le> length (aborted s) + 1
   \<and> (addFilter f ks r s \<noteq> processed f ks s \<longrightarrow>
        reconnect_flag r \<and> (\<exists>k \<in> set (keyword_list ks). \<not> counted (filters s f) k))
   \<and> ((\<forall>k \<in> set (keyword_list ks). counted (filters s f) k) \<longrightarrow>
        addFilter f ks r s = processed f ks s
        \<and> stale (addFilter f ks r s) = stale s
        \<and> requests (addFilter f ks r s) = requests s
        \<and> aborted (addFilter f ks r s) = aborted s
        \<and> stream (addFilter f ks r s) = stream s
        \<and> (\<forall>k \<in> set (keyword_list ks). counted (filters (addFilter f ks r s) f) k))"
proof -
  let ?st = "fold (addFilter_keyword f) (keyword_list ks) (s, False)"
  let ?p = "processed f ks s"
  have p: "?p = fst ?st"
    by (simp add: processed_def)
  have add: "addFilter f ks r s = (if reconnect_flag r \<and> snd ?st then reconnect ?p else ?p)"
    by (simp add: addFilter_def processed_def Let_def)
  have fields: "requests ?p = requests s" "aborted ?p = aborted s" "stream ?p = stream s"
    using fold_addFilter_keyword_fields [of f "keyword_list ks" "(s, False)"]
    by (simp_all add: p)
  have once: "addFilter f ks r s = ?p \<or> addFilter f ks r s = reconnect ?p"
    by (simp add: add)
  have len: "length (requests (addFilter f ks r s)) \<le> length (requests s) + 1"
    "length (aborted (addFilter f ks r s)) \<le> length (aborted s) + 1"
    using reconnect_at_most_one [of ?p] fields by (simp_all add: add)
  have all: "addFilter f ks r s = ?p \<and> stale ?p = stale s
      \<and> (\<forall>k \<in> set (keyword_list ks). counted (filters ?p f) k)"
    if c: "\<forall>k \<in> set (keyword_list ks). counted (filters s f) k"
  proof -
    have "snd ?st = False \<and> stale (fst ?st) = stale s
       \<and> (\<forall>k'. counted (filters s f) k' \<longrightarrow> counted (filters (fst ?st) f) k')"
      by (rule fold_addFilter_keyword_counted [OF c])
    then show ?thesis
      using c by (simp add: add p)
  qed
  have only: "reconnect_flag r \<and> (\<exists>k \<in> set (keyword_list ks). \<not> counted (filters s f) k)"
    if d: "addFilter f ks r s \<noteq> ?p"
  proof -
    have flag: "reconnect_flag r"
      using d by (auto simp add: add split: if_splits)
    have "\<not> (\<forall>k \<in> set (keyword_list ks). counted (filters s f) k)"
      using all d by blast
    then show ?thesis using flag by blast
  qed
  have same: "addFilter f ks r s = ?p
        \<and> stale (addFilter f ks r s) = stale s
        \<and> requests (addFilter f ks r s) = requests s
        \<and> aborted (addFilter f ks r s) = aborted s
        \<and> stream (addFilter f ks r s) = stream s
        \<and> (\<forall>k \<in> set (keyword_list ks). counted (filters (addFilter f ks r s) f) k)"
    if c: "\<forall>k \<in> set (keyword_list ks). counted (filters s f) k"
    using all [OF c] fields by simp
  show ?thesis
    using once fields len only same by blast
qed

lemma counted_tracking_client:
  "counted (filters tracking_client FILTER_TYPE_TRACKING) ''a''"
  "\<not> counted (filters tracking_client FILTER_TYPE_TRACKING) ''b''"
  by (simp_all add: tracking_client_eq counted_def)

lemma processed_tracking_client:
  "processed FILTER_TYPE_TRACKING (Multiple [''a'', ''a'']) tracking_client =
     tracking_client\<lparr>filters := (\<lambda>f. [])(FILTER_TYPE_TRACKING := [(''a'', Number 3)])\<rparr>"
  "processed FILTER_TYPE_TRACKING (Multiple [''a'', ''b'']) tracking_client =
     tracking_client\<lparr>filters := (\<lambda>f. [])(FILTER_TYPE_TRACKING :=
        [(''a'', Number 2), (''b'', Number 1)]), stale := Some True\<rparr>"
  by (simp_all add: processed_def keyword_list_def addFilter_keyword_def Let_def
      tracking_client_eq get_property_def set_property_def object_prototype_functions_def
      new_client_def)

lemma addFilter_fresh_tracking_client:
  "stale (addFilter FILTER_TYPE_TRACKING (Multiple [''a'', ''b'']) None tracking_client)
     = Some False"
  "length (requests (addFilter FILTER_TYPE_TRACKING (Multiple [''a'', ''b'']) None
     tracking_client)) = 2"
proof -
  have a: "addFilter FILTER_TYPE_TRACKING (Multiple [''a'', ''b'']) None tracking_client
      = reconnect (processed FILTER_TYPE_TRACKING (Multiple [''a'', ''b'']) tracking_client)"
    by (simp add: addFilter_def processed_def keyword_list_def addFilter_keyword_def Let_def
      tracking_client_eq get_property_def set_property_def object_prototype_functions_def
      new_client_def reconnect_flag_def)
  show "stale (addFilter FILTER_TYPE_TRACKING (Multiple [''a'', ''b'']) None tracking_client)
     = Some False"
    unfolding a processed_tracking_client(2)
    by (simp add: tracking_client_eq new_client_def client_eval filter_eval Let_def)
  show "length (requests (addFilter FILTER_TYPE_TRACKING (Multiple [''a'', ''b'']) None
     tracking_client)) = 2"
    unfolding a processed_tracking_client(2)
    by (simp add: tracking_client_eq new_client_def client_eval filter_eval Let_def)
qed

theorem addFilter_reconnects_at_most_once_witness:
  "counted (filters tracking_client FILTER_TYPE_TRACKING) ''a''
   \<and> keyword_list (Multiple [''a'', ''a'']) = [''a'', ''a'']
   \<and> addFilter FILTER_TYPE_TRACKING (Multiple [''a'', ''a'']) None tracking_client
       = processed FILTER_TYPE_TRACKING (Multiple [''a'', ''a'']) tracking_client
   \<and> filters (addFilter FILTER_TYPE_TRACKING (Multiple [''a'', ''a'']) None tracking_client)
        FILTER_TYPE_TRACKING = [(''a'', Number 3)]
   \<and> stale (addFilter FILTER_TYPE_TRACKING (Multiple [''a'', ''a'']) None tracking_client)
       = stale tracking_client
   \<and> requests (addFilter FILTER_TYPE_TRACKING (Multiple [''a'', ''a'']) None tracking_client)
       = requests tracking_client
   \<and> addFilter FILTER_TYPE_TRACKING (Multiple [''a'', ''b'']) None tracking_client
       \<noteq> processed FILTER_TYPE_TRACKING (Multiple [''a'', ''b'']) tracking_client
   \<and> reconnect_flag None
   \<and> \<not> counted (filters tracking_client FILTER_TYPE_TRACKING) ''b''
   \<and> length (requests (addFilter FILTER_TYPE_TRACKING (Multiple [''a'', ''b'']) None
        tracking_client)) = length (requests tracking_client) + 1"
proof -
  have all: "\<forall>k \<in> set (keyword_list (Multiple [''a'', ''a''])).
      counted (filters tracking_client FILTER_TYPE_TRACKING) k"
    by (simp add: keyword_list_def counted_tracking_client)
  have same: "addFilter FILTER_TYPE_TRACKING (Multiple [''a'', ''a'']) None tracking_client
       = processed FILTER_TYPE_TRACKING (Multiple [''a'', ''a'']) tracking_client"
    "stale (addFilter FILTER_TYPE_TRACKING (Multiple [''a'', ''a'']) None tracking_client)
       = stale tracking_client"
    "requests (addFilter FILTER_TYPE_TRACKING (Multiple [''a'', ''a'']) None tracking_client)
       = requests tracking_client"
    using addFilter_reconnects_at_most_once
      [of FILTER_TYPE_TRACKING "Multiple [''a'', ''a'']" None tracking_client] all
    by blast+
  have fl: "filters (addFilter FILTER_TYPE_TRACKING (Multiple [''a'', ''a'']) None
      tracking_client) FILTER_TYPE_TRACKING = [(''a'', Number 3)]"
    unfolding same(1) by (simp add: processed_tracking_client)
  have ne: "addFilter FILTER_TYPE_TRACKING (Multiple [''a'', ''b'']) None tracking_client
       \<noteq> processed FILTER_TYPE_TRACKING (Multiple [''a'', ''b'']) tracking_client"
  proof
    assume "addFilter FILTER_TYPE_TRACKING (Multiple [''a'', ''b'']) None tracking_client
       = processed FILTER_TYPE_TRACKING (Multiple [''a'', ''b'']) tracking_client"
    then have "stale (addFilter FILTER_TYPE_TRACKING (Multiple [''a'', ''b'']) None
        tracking_client)
      = stale (processed FILTER_TYPE_TRACKING (Multiple [''a'', ''b'']) tracking_client)"
      by simp
    then show False
      by (simp add: addFilter_fresh_tracking_client processed_tracking_client)
  qed
  have flag: "reconnect_flag None"
    using addFilter_reconnects_at_most_once
      [of FILTER_TYPE_TRACKING "Multiple [''a'', ''b'']" None tracking_client] ne
    by blast
  have "length (requests tracking_client) = 1"
    by (simp add: tracking_client_eq)
  then have len: "length (requests (addFilter FILTER_TYPE_TRACKING (Multiple [''a'', ''b''])
        None tracking_client)) = length (requests tracking_client) + 1"
    by (simp add: addFilter_fresh_tracking_client)
  show ?thesis
    using same fl ne flag len counted_tracking_client
    by (simp add: keyword_list_def)
qed

section \<open>Rate limiting\<close>

lemma consistent_cong:
  assumes "consistent s" and "rateBackoff s' = rateBackoff s" and "timeout s' = timeout s"
    and "timer_count s \<le> timer_count s'"
  shows "consistent s'"
  using assms by (auto simp add: consistent_def split: option.splits)


lemma fold_addFilter_keyword_kept:
  "rateBackoff (fst (fold (addFilter_keyword f) ks st)) = rateBackoff (fst st)
   \<and> timeout (fst (fold (addFilter_keyword f) ks st)) = timeout (fst st)
   \<and> timer_count (fst (fold (addFilter_keyword f) ks st)) = timer_count (fst st)"
proof (induction ks arbitrary: st)
  case Nil
  show ?case by simp
next
  case (Cons k ks)
  show ?case
    using Cons.IH [of "addFilter_keyword f k st"]
    by (simp add: addFilter_keyword_def Let_def)
qed


lemma reconnect_kept:
  "rateBackoff (reconnect s) = rateBackoff s" "timeout (reconnect s) = timeout s"
  "timer_count (reconnect s) = timer_count s"
  by (simp_all add: reconnect_def connect_alt abort_alt)


lemma consistent_addFilter:
  assumes "consistent s"
  shows "consistent (addFilter f ks r s)"
proof (rule consistent_cong [OF assms])
  have k: "rateBackoff (fst (fold (addFilter_keyword f) (keyword_list ks) (s, False)))
        = rateBackoff s"
    "timeout (fst (fold (addFilter_keyword f) (keyword_list ks) (s, False))) = timeout s"
    "timer_count (fst (fold (addFilter_keyword f) (keyword_list ks) (s, False)))
        = timer_count s"
    using fold_addFilter_keyword_kept [of f "keyword_list ks" "(s, False)"] by simp_all
  show "rateBackoff (addFilter f ks r s) = rateBackoff s"
    by (simp add: addFilter_def Let_def reconnect_kept k)
  show "timeout (addFilter f ks r s) = timeout s"
    by (simp add: addFilter_def Let_def reconnect_kept k)
  show "timer_count s \<le> timer_count (addFilter f ks r s)"
    by (simp add: addFilter_def Let_def reconnect_kept k)
qed

lemma consistent_removeFilter:
  assumes "consistent s"
  shows "consistent (removeFilter f k r s)"
  by (rule consistent_cong [OF assms])
     (simp_all add: removeFilter_def Let_def reconnect_kept)

lemma consistent_removeAllFilters:
  assumes "consistent s"
  shows "consistent (removeAllFilters f r s)"
  by (rule consistent_cong [OF assms])
     (simp_all add: removeAllFilters_def Let_def reconnect_kept)

lemma consistent_write_record:
  assumes "consistent s"
  shows "consistent (the_client (write_record d s))"
  by (rule consistent_cong [OF assms])
     (simp_all add: write_record_def the_client_def emit_def)

lemma response_420_thrown:
  "max_b (rateBackoff s) < current (rateBackoff s) \<Longrightarrow>
     response_handler 420 u s = Inl (Exceeded_rate_limit, s)"
  by (simp add: response_handler_def backoff_call_cases)


lemma errorExplanation_503:
  "errorExplanation 503 =
     Some \<lparr>etype = ''service-unavailable'',
           long = ''A streaming server is temporarily overloaded.''\<rparr>"
  by (simp add: errorExplanation_def)


lemma response_503_kept:
  "rateBackoff (the_client (response_handler 503 u s)) = rateBackoff s
   \<and> timeout (the_client (response_handler 503 u s)) = timeout s
   \<and> timer_count s \<le> timer_count (the_client (response_handler 503 u s))"
  by (simp add: response_handler_def the_client_def backoff_call_cases Let_def abort_alt
      setTimeout_def emit_def errorExplanation_503)


lemma response_fatal_kept:
  assumes "status \<noteq> 420" "status \<noteq> 503" "200 < status"
  shows "rateBackoff (the_client (response_handler status u s)) = rateBackoff s
   \<and> timeout (the_client (response_handler status u s)) = timeout s
   \<and> timer_count (the_client (response_handler status u s)) = timer_count s"
  using assms
  by (simp add: response_handler_def the_client_def emit_error_def Let_def abort_alt emit_def)


lemma consistent_response:
  assumes "consistent s"
  shows "consistent (the_client (response_handler status u s))"
proof -
  consider (rate) "status = 420" | (http) "status = 503"
    | (fatal) "status \<noteq> 420" "status \<noteq> 503" "200 < status"
    | (ok) "status \<noteq> 420" "status \<noteq> 503" "\<not> 200 < status"
    by blast
  then show ?thesis
  proof cases
    case rate
    show ?thesis
    proof (cases "current (rateBackoff s) \<le> max_b (rateBackoff s)")
      case True
      obtain s' where r: "response_handler 420 u s = Inr s'"
        and f: "rateBackoff s' =
          (rateBackoff s)\<lparr>current := step (rateBackoff s) (current (rateBackoff s))\<rparr>"
          "timeout s' = timeout s"
          "timer_count s' = (if connectBackoff s = 0 then timer_count s + 1 else timer_count s)"
        using response_420 [OF True, of u] by blast
      have "consistent s'"
        using assms f by (auto simp add: consistent_def split: option.splits)
      then show ?thesis
        using r rate by (simp add: the_client_def)
    next
      case False
      then show ?thesis
        using assms rate by (simp add: response_420_thrown the_client_def)
    qed
  next
    case http
    show ?thesis
      unfolding http
      by (rule consistent_cong [OF assms]) (simp_all add: response_503_kept)
  next
    case fatal
    show ?thesis
      by (rule consistent_cong [OF assms]) (simp_all add: response_fatal_kept [OF fatal])
  next
    case ok
    obtain s' where r: "response_handler 200 u s = Inr s'"
      and f: "rateBackoff s' = rateBackoff_init" "timeout s' = Some (timer_count s)"
        "timers s' = timers s @ [(timer_count s, Stall_close, timeoutInterval)]"
      using response_200 [of u s] by blast
    have same: "response_handler status u s = response_handler 200 u s"
      using ok by (simp add: response_handler_def)
    have tc: "timer_count s' = timer_count s + 1"
      using r by (auto simp add: response_handler_def Let_def setTimeout_def emit_def
          backoffs_def)
    have "consistent s'"
      using f tc by (simp add: consistent_def rateBackoff_init_def backoff_def)
    then show ?thesis
      using r same by (simp add: the_client_def)
  qed
qed


lemma consistent_error: "consistent s \<Longrightarrow> consistent (the_client (error_handler u s))"
  by (simp add: error_handler_def the_client_def backoff_call_cases Let_def abort_alt
      setTimeout_def emit_def consistent_def split: option.splits)


lemma consistent_data: "consistent s \<Longrightarrow> consistent (data_handler s)"
  by (simp add: data_handler_def Let_def setTimeout_def clearTimeout_def consistent_def)


lemma consistent_fires: "consistent s \<Longrightarrow> consistent (timer_fires h s)"
proof -
  assume c: "consistent s"
  have kept: "rateBackoff (timer_fires h s) = rateBackoff s
      \<and> timeout (timer_fires h s) = timeout s
      \<and> timer_count (timer_fires h s) = timer_count s"
  proof (cases "find (\<lambda>t. fst t = h) (timers s)")
    case None
    then show ?thesis by (simp add: timer_fires_def)
  next
    case (Some t)
    have ticks: "\<And>ts x. rateBackoff (run_ticks ts x) = rateBackoff x
        \<and> timeout (run_ticks ts x) = timeout x \<and> timer_count (run_ticks ts x) = timer_count x"
    proof -
      fix ts x
      show "rateBackoff (run_ticks ts x) = rateBackoff x
        \<and> timeout (run_ticks ts x) = timeout x \<and> timer_count (run_ticks ts x) = timer_count x"
        by (induction ts x rule: run_ticks.induct) (simp_all add: connect_alt)
    qed
    show ?thesis
      using Some
      by (cases "fst (snd t)")
         (simp_all add: timer_fires_def next_tick_def ticks timer_callback_def connect_alt
            close_def Let_def emit_def abort_alt)
  qed
  show ?thesis
    by (rule consistent_cong [OF c]) (simp_all add: kept)
qed


lemma reachable_consistent: "reachable s \<Longrightarrow> consistent s"
proof (induction rule: reachable.induct)
  case constructed
  show ?case by (simp add: consistent_def new_client_def backoff_def)
next
  case (reconnects s)
  show ?case by (rule consistent_cong [OF reconnects.IH]) (simp_all add: reconnect_kept)
next
  case (connects s)
  show ?case by (rule consistent_cong [OF connects.IH]) (simp_all add: connect_alt)
next
  case (aborts s)
  show ?case by (rule consistent_cong [OF aborts.IH]) (simp_all add: abort_alt)
qed (simp_all add: consistent_addFilter consistent_removeFilter consistent_removeAllFilters
      consistent_write_record consistent_response consistent_error consistent_data
      consistent_fires)


lemma response_420_returned:
  assumes "current (rateBackoff s) \<le> max_b (rateBackoff s)"
  shows "response_handler 420 u s = Inr (the_client (response_handler 420 u s))"
proof -
  obtain s' where "response_handler 420 u s = Inr s'"
    using response_420 [OF assms, of u] by blast
  then show ?thesis by (simp add: the_client_def)
qed

text \<open>
  C3, as the code has it. On a reachable client whose \<^verbatim>\<open>connectBackoff\<close> is 0 (the code's
  record that no reconnect is pending) and whose rate backoff can be drawn twice, two
  responses with status 420, the second arriving before the timer of the first has fired
  (with or without a \<^verbatim>\<open>connect()\<close> in between), schedule exactly one timer, for the
  jittered delay of the first draw, and emit two reconnect events, each with the
  rate-limit classification and that pending delay. A response with status 420 whose
  draw of the rate backoff is exhausted throws instead, before it aborts, schedules or
  emits anything.
\<close>

theorem two_rate_limits_one_timer:
  assumes reach: "reachable s"
    and idle: "connectBackoff s = 0"
    and draws: "2 * current (rateBackoff s) \<le> 2147483647"
    and draw: "0 \<le> u1"
  shows "(\<exists>s1 s2.
        response_handler 420 u1 s = Inr s1
      \<and> response_handler 420 u2 (if c then connect s1 else s1) = Inr s2
      \<and> timer_count s1 = timer_count s + 1
      \<and> timer_count s2 = timer_count s + 1
      \<and> timers s2 =
          timers (abort s) @
            [(timer_count s, Response_reconnect,
              jitter (real_of_int (current (rateBackoff s))) u1)]
      \<and> emitted s2 =
          emitted s @
            [Reconnect_event ''rate-limit'' (errorExplanation 420)
               (jitter (real_of_int (current (rateBackoff s))) u1),
             Reconnect_event ''rate-limit'' (errorExplanation 420)
               (jitter (real_of_int (current (rateBackoff s))) u1)]
      \<and> 0 < jitter (real_of_int (current (rateBackoff s))) u1)
     \<and> (max_b (rateBackoff t) < current (rateBackoff t) \<longrightarrow>
          response_handler 420 u3 t = Inl (Exceeded_rate_limit, t))"
proof -
  have inv: "consistent s"
    using reach by (rule reachable_consistent)
  have pos: "0 < current (rateBackoff s)"
    and mx: "max_b (rateBackoff s) = 2147483647"
    and st: "step (rateBackoff s) = (\<lambda>x. x * 2)"
    using inv by (simp_all add: consistent_def)
  have handle: "\<forall>h. timeout s = Some h \<longrightarrow> h < timer_count s"
    using inv by (auto simp add: consistent_def)
  have first: "current (rateBackoff s) \<le> max_b (rateBackoff s)"
    using pos draws mx by simp
  have second: "step (rateBackoff s) (current (rateBackoff s)) \<le> max_b (rateBackoff s)"
    using draws mx st by (simp add: mult.commute)
  let ?d = "jitter (real_of_int (current (rateBackoff s))) u1"
  let ?ev = "Reconnect_event ''rate-limit'' (errorExplanation 420) ?d"
  have dpos: "0 < ?d"
    using pos draw by (intro jitter_pos) simp_all
  obtain s1 where r1: "response_handler 420 u1 s = Inr s1"
    and cb1: "connectBackoff s1 = ?d"
    and t1: "timers s1 = remove_timer (timeout s) (timers s) @ [(timer_count s, Response_reconnect, ?d)]"
    and tc1: "timer_count s1 = timer_count s + 1"
    and e1: "emitted s1 = emitted s @ [?ev]"
    and rb1: "rateBackoff s1 =
        (rateBackoff s)\<lparr>current := step (rateBackoff s) (current (rateBackoff s))\<rparr>"
    and to1: "timeout s1 = timeout s"
    using response_420 [OF first, of u1] idle by auto
  let ?m = "if c then connect s1 else s1"
  have m: "connectBackoff ?m = ?d" "timers ?m = timers s1" "timer_count ?m = timer_count s1"
    "emitted ?m = emitted s1" "rateBackoff ?m = rateBackoff s1" "timeout ?m = timeout s1"
    by (simp_all add: connect_alt cb1)
  have ok2: "current (rateBackoff ?m) \<le> max_b (rateBackoff ?m)"
    using second by (simp add: m rb1)
  have ne: "connectBackoff ?m \<noteq> 0"
    using dpos by (simp add: m)
  obtain s2 where r2: "response_handler 420 u2 ?m = Inr s2"
    and t2: "timers s2 = remove_timer (timeout ?m) (timers ?m)"
    and tc2: "timer_count s2 = timer_count ?m"
    and e2: "emitted s2 = emitted ?m @ [Reconnect_event ''rate-limit'' (errorExplanation 420) (connectBackoff ?m)]"
    using response_420 [OF ok2, of u2] ne by auto
  have keep: "remove_timer (timeout s) [(timer_count s, Response_reconnect, ?d)]
      = [(timer_count s, Response_reconnect, ?d)]"
    using handle by (auto simp add: remove_timer_def split: option.splits)
  have t2': "timers s2 = timers (abort s) @ [(timer_count s, Response_reconnect, ?d)]"
    by (simp add: t2 m t1 to1 remove_timer_append remove_timer_twice keep abort_alt)
  have e2': "emitted s2 = emitted s @ [?ev, ?ev]"
    by (simp add: e2 m e1)
  have two: "\<exists>s1 s2.
        response_handler 420 u1 s = Inr s1
      \<and> response_handler 420 u2 (if c then connect s1 else s1) = Inr s2
      \<and> timer_count s1 = timer_count s + 1
      \<and> timer_count s2 = timer_count s + 1
      \<and> timers s2 = timers (abort s) @ [(timer_count s, Response_reconnect, ?d)]
      \<and> emitted s2 = emitted s @ [?ev, ?ev]
      \<and> 0 < ?d"
    using r1 r2 tc1 tc2 t2' e2' dpos m(3)
    by (intro exI [of _ s1] exI [of _ s2]) simp
  have thrown: "max_b (rateBackoff t) < current (rateBackoff t) \<longrightarrow>
          response_handler 420 u3 t = Inl (Exceeded_rate_limit, t)"
    by (simp add: response_420_thrown)
  show ?thesis
    using two thrown by blast
qed

lemma reachable_tracking_client: "reachable tracking_client"
  unfolding tracking_client_def track_def
  by (intro reachable.adds reachable.constructed)

lemma reachable_streaming_client: "reachable streaming_client"
  unfolding streaming_client_def
  by (intro reachable.responds reachable_tracking_client)

lemma reachable_rounds: "reachable s \<Longrightarrow> reachable (rate_limit_rounds n s)"
  by (induction n arbitrary: s) (simp_all add: reachable.fires reachable.responds)

lemma reachable_exhausting: "reachable exhausting_client" "reachable exhausting_first"
  "reachable (connect exhausting_first)"
  unfolding exhausting_first_def exhausting_client_def
  by (intro reachable.connects reachable.responds reachable_rounds reachable_tracking_client)+

lemma exhausting_client_fields:
  "connectBackoff exhausting_client = 0"
  "current (rateBackoff exhausting_client) = 2097152000"
  "max_b (rateBackoff exhausting_client) = 2147483647"
  "timers exhausting_client = []"
  "timer_count exhausting_client = 21"
  "timeout exhausting_client = None"
  "length (emitted exhausting_client) = 21"
  by code_simp+

lemma exhausting_first_fields:
  "timers exhausting_first = [(21, Response_reconnect, 2097152000)]"
  "timer_count exhausting_first = 22"
  "length (emitted exhausting_first) = 22"
  "last (emitted exhausting_first) =
     Reconnect_event ''rate-limit'' (errorExplanation 420) 2097152000"
  "current (rateBackoff exhausting_first) = 4194304000"
  "max_b (rateBackoff exhausting_first) = 2147483647"
  by code_simp+

lemma stuck_fields:
  "timers stuck_first = []"
  "timers stuck_second = []"
  "timer_count stuck_second = 2"
  "stream stuck_second = None"
  "length (emitted stuck_second) = 4"
  "drop 2 (emitted stuck_second) =
     [Reconnect_event ''rate-limit'' (errorExplanation 420) 250,
      Reconnect_event ''rate-limit'' (errorExplanation 420) 250]"
  "current (rateBackoff second_retry) = 1000"
  "current (rateBackoff (connect stuck_first)) = 2000"
  "timer_count second_retry = 2"
  "length (emitted second_retry) = 2"
  by code_simp+

lemma reachable_second_retry: "reachable second_retry"
  unfolding second_retry_def second_failure_def first_retry_def first_failure_def
  by (intro reachable.fires reachable.fails reachable_tracking_client)

lemma stuck_emitted:
  "emitted stuck_second =
     emitted second_retry @
       [Reconnect_event ''rate-limit'' (errorExplanation 420) 250,
        Reconnect_event ''rate-limit'' (errorExplanation 420) 250]"
  by code_simp

lemma connect_exhausting_first:
  "emitted (connect exhausting_first) = emitted exhausting_first"
  "timers (connect exhausting_first) = timers exhausting_first"
  "max_b (rateBackoff (connect exhausting_first))
     < current (rateBackoff (connect exhausting_first))"
  by (simp_all add: connect_alt exhausting_first_fields)

theorem two_rate_limits_one_timer_witness:
  "reachable streaming_client
   \<and> connectBackoff streaming_client = 0
   \<and> 2 * current (rateBackoff streaming_client) \<le> 2147483647
   \<and> (\<exists>s1 s2.
         response_handler 420 (1 / 2) streaming_client = Inr s1
       \<and> response_handler 420 (1 / 4) (connect s1) = Inr s2
       \<and> timer_count s2 = 2
       \<and> timers s2 = [(1, Response_reconnect, 1000)]
       \<and> emitted s2 =
           [Connect_event,
            Reconnect_event ''rate-limit'' (errorExplanation 420) 1000,
            Reconnect_event ''rate-limit'' (errorExplanation 420) 1000])
   \<and> max_b (rateBackoff (connect exhausting_first))
       < current (rateBackoff (connect exhausting_first))
   \<and> response_handler 420 (1 / 2) (connect exhausting_first)
       = Inl (Exceeded_rate_limit, connect exhausting_first)"
proof -
  have a: "connectBackoff streaming_client = 0"
    by (simp add: streaming_client_fields)
  have b: "2 * current (rateBackoff streaming_client) \<le> 2147483647"
    by (simp add: streaming_client_fields rateBackoff_init_def backoff_def)
  have f: "(0::real) \<le> 1 / 2"
    by simp
  have j: "jitter (real_of_int (current rateBackoff_init)) (1 / 2) = 1000"
    by (simp add: rateBackoff_init_def backoff_def jitter_def)
  have t: "timers (abort streaming_client) = []"
    by (simp add: abort_alt streaming_client_fields remove_timer_def)
  note inst = two_rate_limits_one_timer [OF reachable_streaming_client a b f,
      of "1 / 4" True "connect exhausting_first" "1 / 2"]
  have two: "\<exists>s1 s2.
         response_handler 420 (1 / 2) streaming_client = Inr s1
       \<and> response_handler 420 (1 / 4) (connect s1) = Inr s2
       \<and> timer_count s2 = 2
       \<and> timers s2 = [(1, Response_reconnect, 1000)]
       \<and> emitted s2 =
           [Connect_event,
            Reconnect_event ''rate-limit'' (errorExplanation 420) 1000,
            Reconnect_event ''rate-limit'' (errorExplanation 420) 1000]"
    using inst by (auto simp add: j t streaming_client_fields numeral_2_eq_2)
  have thrown: "response_handler 420 (1 / 2) (connect exhausting_first)
       = Inl (Exceeded_rate_limit, connect exhausting_first)"
    using inst connect_exhausting_first(3) by blast
  show ?thesis
    using reachable_streaming_client a b two thrown connect_exhausting_first(3) by blast
qed

text \<open>
  The claim as the specification states it fails in two ways. After 21 rounds of a
  response with status 420 and its timer, no reconnect is pending and a first response
  with status 420 schedules a timer and emits its event, but the second one, on the new
  connection, finds the rate backoff beyond its ceiling and throws (line 11): one timer,
  one notification. And on \<open>second_retry\<close>, where the timer of a network failure has
  fired and left \<^verbatim>\<open>connectBackoff\<close> at 250 (line 360), no reconnect timer is pending, yet
  two responses with status 420 schedule none; both emit, with the delay 250.
\<close>

theorem two_rate_limits_counterexample:
  "reachable exhausting_client
   \<and> connectBackoff exhausting_client = 0
   \<and> timers exhausting_client = []
   \<and> response_handler 420 (1 / 2) exhausting_client = Inr exhausting_first
   \<and> timers exhausting_first = [(21, Response_reconnect, 2097152000)]
   \<and> length (emitted exhausting_first) = length (emitted exhausting_client) + 1
   \<and> response_handler 420 (1 / 2) (connect exhausting_first)
       = Inl (Exceeded_rate_limit, connect exhausting_first)
   \<and> emitted (connect exhausting_first) = emitted exhausting_first
   \<and> timers (connect exhausting_first) = timers exhausting_first
   \<and> reachable second_retry
   \<and> timers second_retry = []
   \<and> connectBackoff second_retry = 250
   \<and> response_handler 420 (1 / 2) second_retry = Inr stuck_first
   \<and> response_handler 420 (1 / 2) (connect stuck_first) = Inr stuck_second
   \<and> timer_count stuck_second = timer_count second_retry
   \<and> timers stuck_second = []
   \<and> emitted stuck_second =
       emitted second_retry @
         [Reconnect_event ''rate-limit'' (errorExplanation 420) 250,
          Reconnect_event ''rate-limit'' (errorExplanation 420) 250]"
proof -
  have a: "response_handler 420 (1 / 2) exhausting_client = Inr exhausting_first"
    unfolding exhausting_first_def
    by (rule response_420_returned) (simp add: exhausting_client_fields)
  have b: "length (emitted exhausting_first) = length (emitted exhausting_client) + 1"
    by (simp add: exhausting_first_fields exhausting_client_fields)
  have c: "response_handler 420 (1 / 2) (connect exhausting_first)
       = Inl (Exceeded_rate_limit, connect exhausting_first)"
    by (rule response_420_thrown) (rule connect_exhausting_first(3))
  have d: "timers second_retry = []" "connectBackoff second_retry = 250"
    by (simp_all add: second_retry_state second_failure_state)
  have inv: "consistent second_retry"
    by (rule reachable_consistent [OF reachable_second_retry])
  have ok1: "current (rateBackoff second_retry) \<le> max_b (rateBackoff second_retry)"
    using inv by (simp add: consistent_def stuck_fields)
  have e: "response_handler 420 (1 / 2) second_retry = Inr stuck_first"
    unfolding stuck_first_def by (rule response_420_returned [OF ok1])
  have "reachable (connect stuck_first)"
    unfolding stuck_first_def
    by (intro reachable.connects reachable.responds reachable_second_retry)
  then have inv2: "consistent (connect stuck_first)"
    by (rule reachable_consistent)
  have ok2: "current (rateBackoff (connect stuck_first))
      \<le> max_b (rateBackoff (connect stuck_first))"
    using inv2 by (simp add: consistent_def stuck_fields)
  have f: "response_handler 420 (1 / 2) (connect stuck_first) = Inr stuck_second"
    unfolding stuck_second_def by (rule response_420_returned [OF ok2])
  have g: "timer_count stuck_second = timer_count second_retry"
    by (simp add: stuck_fields)
  show ?thesis
    using reachable_exhausting(1) reachable_second_retry a b c d e f g stuck_emitted
    by (simp add: exhausting_client_fields exhausting_first_fields connect_exhausting_first
        stuck_fields)
qed

end
